theory Spec2Isabelle
  imports Main "HOL-Library.AList" "HOL-Library.Sublist"
begin

section \<open>Data model of the master (src/master/http.cpp and the state it reads)\<close>

text \<open>
  Identifiers are opaque keys. The hash map of the machines is an association list:
  \<open>map_of\<close> is the lookup, \<open>AList.update\<close> the store, and the order of the list is the
  (unspecified but fixed) iteration order of the container. The frameworks, the registered
  agents and the offers are keyed by the identifier each object carries: they are lists of
  the objects, looked up by that identifier.
\<close>

type_synonym FrameworkID = string
type_synonym SlaveID = string
type_synonym OfferID = string
type_synonym MachineID = string
type_synonym JSON = string

datatype Mode = UP | DRAINING | DOWN

record Unavailability =
  u_start :: int
  u_duration :: "int option"

record MachineInfo =
  mi_id :: MachineID
  mode :: Mode
  unavailability :: "Unavailability option"

record Machine =
  info :: MachineInfo
  slaves :: "SlaveID list"

record Window =
  machine_ids :: "MachineID list"
  w_unavailability :: Unavailability

record Schedule =
  windows :: "Window list"

record Resource =
  name :: string
  scalar :: nat
  role :: "string option"
  reservation :: "string option"
  disk :: "string option"

type_synonym Resources = "Resource list"

datatype Operation =
  RESERVE Resources | UNRESERVE Resources | CREATE Resources | DESTROY Resources

record Offer =
  o_id :: OfferID
  framework_id :: FrameworkID
  slave_id :: SlaveID
  resources :: Resources

record Slave =
  s_id :: SlaveID
  s_pid :: string
  s_machineId :: MachineID
  s_offers :: "Offer list"
  checkpointedResources :: Resources

record Framework =
  f_id :: FrameworkID
  connected :: bool
  f_principal :: "string option"
  f_offers :: "OfferID list"

record Credential =
  principal :: string
  secret :: string

datatype Entity = ANY | Values "string list"

record ShutdownFramework =
  principals :: Entity
  framework_principals :: Entity

datatype Message =
  ShutdownMessage string
| RescindResourceOfferMessage OfferID

datatype AllocatorCall =
  RecoverResources FrameworkID SlaveID Resources nat

record Master =
  elected :: bool
  master_recovered :: "bool option"
  authenticate_frameworks :: bool
  credentials :: "Credential list option"
  authorizer :: "(ShutdownFramework \<Rightarrow> bool) option"
  frameworks :: "Framework list"
  slaves_registered :: "Slave list"
  offers :: "Offer list"
  machines :: "(MachineID \<times> Machine) list"
  schedules :: "Schedule list"
  sent :: "(string \<times> Message) list"
  allocator_calls :: "AllocatorCall list"

record Request =
  http_method :: string
  headers :: "(string \<times> string) list"
  body :: string
  query :: "(string \<times> string) list"

datatype ContentType = JSON_type | PROTOBUF_type

type_synonym Pipe = nat

datatype Response =
  OK
| OK_JSON JSON "string option"
| OK_PIPE ContentType Pipe
| Accepted
| BadRequest string
| Unauthorized string "string option"
| Forbidden string
| MethodNotAllowed string
| NotAcceptable string
| Conflict string
| UnsupportedMediaType string
| NotImplemented
| ServiceUnavailable string

text \<open>
  The status codes of the response classes of libprocess (not among the sources), as the
  spec's table of the request surface has them.
\<close>

fun status :: "Response \<Rightarrow> nat" where
  "status OK = 200"
| "status (OK_JSON _ _) = 200"
| "status (OK_PIPE _ _) = 200"
| "status Accepted = 202"
| "status (BadRequest _) = 400"
| "status (Unauthorized _ _) = 401"
| "status (Forbidden _) = 403"
| "status (MethodNotAllowed _) = 405"
| "status (NotAcceptable _) = 406"
| "status (Conflict _) = 409"
| "status (UnsupportedMediaType _) = 415"
| "status NotImplemented = 501"
| "status (ServiceUnavailable _) = 503"

text \<open>
  A failed \<open>CHECK\<close>, \<open>CHECK_NOTNULL\<close>, \<open>CHECK_SOME\<close> or \<open>LOG(FATAL)\<close> aborts the process; an
  out-of-range \<open>operator[]\<close> on a vector is undefined behaviour. Both are results of their own,
  \<open>Inl\<close> of the handlers' result type.
\<close>

datatype Fatal = CHECK_failed string | Undefined_behaviour string

type_synonym 'a outcome = "Fatal + 'a"

datatype Call_Type =
  SUBSCRIBE | TEARDOWN | ACCEPT | DECLINE | REVIVE | SUPPRESS | KILL | SHUTDOWN
| ACKNOWLEDGE | RECONCILE | MESSAGE | REQUEST | UNKNOWN

record Call =
  call_type :: Call_Type
  call_framework_id :: FrameworkID
  call_payload :: string

record HttpConnection =
  h_writer :: Pipe
  h_contentType :: ContentType

section \<open>Collaborators that are not part of src/master/http.cpp\<close>

text \<open>
  Parsing, validation and stringification are consumed as pure functions. They are parameters
  of every handler below, collected in one record; nothing is assumed about them unless a
  theorem states it as a hypothesis.
\<close>

record Externals =
  json_parse_object :: "string \<Rightarrow> string + JSON"
  json_parse_array :: "string \<Rightarrow> string + JSON"
  protobuf_parse_schedule :: "JSON \<Rightarrow> string + Schedule"
  protobuf_parse_machine_ids :: "JSON \<Rightarrow> string + MachineID list"
  validate_schedule :: "Schedule \<Rightarrow> (MachineID \<times> Machine) list \<Rightarrow> string option"
  validate_machines :: "MachineID list \<Rightarrow> string option"
  json_of_schedule :: "Schedule \<Rightarrow> JSON"
  stringify_machine :: "MachineID \<Rightarrow> string"
  query_decode :: "string \<Rightarrow> string + (string \<times> string) list"
  json_array_values :: "JSON \<Rightarrow> JSON list"
  protobuf_parse_resource :: "JSON \<Rightarrow> string + Resource"
  validate_create :: "Resources \<Rightarrow> Resources \<Rightarrow> string option"
  validate_destroy :: "Resources \<Rightarrow> Resources \<Rightarrow> string option"
  validate_reserve :: "Resources \<Rightarrow> string option \<Rightarrow> string option"
  validate_unreserve :: "Resources \<Rightarrow> bool \<Rightarrow> string option"
  base64_decode :: "string \<Rightarrow> string + string"
  strings_split :: "string \<Rightarrow> string \<Rightarrow> nat \<Rightarrow> string list"
  ParseFromString :: "string \<Rightarrow> Call option"
  json_parse_value :: "string \<Rightarrow> string + JSON"
  protobuf_parse_call :: "JSON \<Rightarrow> string + Call"
  devolve :: "Call \<Rightarrow> Call"
  validate_call :: "Call \<Rightarrow> string option"
  acceptsMediaType :: "Request \<Rightarrow> string \<Rightarrow> bool"

section \<open>Machines: lookup and in-place update\<close>

definition Machine_default :: Machine where
  "Machine_default = \<lparr>info = \<lparr>mi_id = [], mode = UP, unavailability = None\<rparr>, slaves = []\<rparr>"

text \<open>\<open>master->machines[id]\<close>: the stored machine, a default-constructed one when absent.\<close>

definition machine_at :: "(MachineID \<times> Machine) list \<Rightarrow> MachineID \<Rightarrow> Machine" where
  "machine_at ms i = (case map_of ms i of Some mc \<Rightarrow> mc | None \<Rightarrow> Machine_default)"

text \<open>\<open>master->machines[id].f = ...\<close>: \<open>operator[]\<close> inserts the default first when absent.\<close>

definition modify_machine ::
  "MachineID \<Rightarrow> (Machine \<Rightarrow> Machine) \<Rightarrow> (MachineID \<times> Machine) list \<Rightarrow> (MachineID \<times> Machine) list" where
  "modify_machine i f ms = AList.update i (f (machine_at ms i)) ms"

definition set_mode :: "Mode \<Rightarrow> Machine \<Rightarrow> Machine" where
  "set_mode md mc = mc\<lparr>info := (info mc)\<lparr>mode := md\<rparr>\<rparr>"

definition set_unavailability :: "Unavailability option \<Rightarrow> Machine \<Rightarrow> Machine" where
  "set_unavailability u mc = mc\<lparr>info := (info mc)\<lparr>unavailability := u\<rparr>\<rparr>"

definition quoted :: "string \<Rightarrow> string" where
  "quoted s = [CHR 0x27] @ s @ [CHR 0x27]"

text \<open>\<open>master->slaves.registered.get(slaveId)\<close> and \<open>master->getFramework(id)\<close>.\<close>

definition registered_get :: "Master \<Rightarrow> SlaveID \<Rightarrow> Slave option" where
  "registered_get m sid = find (\<lambda>s. s_id s = sid) (slaves_registered m)"

definition getFramework :: "Master \<Rightarrow> FrameworkID \<Rightarrow> Framework option" where
  "getFramework m fid = find (\<lambda>f. f_id f = fid) (frameworks m)"

section \<open>Machine up (\<open>Master::Http::machineUp\<close>, lines 2365-2449)\<close>

text \<open>\<open>DeleteSubrange(k, 1)\<close> of a repeated field.\<close>

definition DeleteSubrange :: "nat \<Rightarrow> 'a list \<Rightarrow> 'a list" where
  "DeleteSubrange k xs = take k xs @ drop (Suc k) xs"

text \<open>
  \<open>for (int k = size - 1; k >= 0; k--) if (updated.contains(machine_ids(k))) DeleteSubrange(k, 1)\<close>:
  the first argument is \<open>k + 1\<close>, the number of indices still to visit.
\<close>

fun delete_machine_ids :: "nat \<Rightarrow> MachineID list \<Rightarrow> MachineID list \<Rightarrow> MachineID list" where
  "delete_machine_ids 0 updated ids = ids"
| "delete_machine_ids (Suc k) updated ids =
     delete_machine_ids k updated
       (if ids ! k \<in> set updated then DeleteSubrange k ids else ids)"

text \<open>The loop over the windows of one schedule, from the last index down.\<close>

fun prune_windows :: "nat \<Rightarrow> MachineID list \<Rightarrow> Window list \<Rightarrow> Window list" where
  "prune_windows 0 updated ws = ws"
| "prune_windows (Suc j) updated ws =
     (let w = ws ! j;
          w' = w\<lparr>machine_ids :=
                 delete_machine_ids (length (machine_ids w)) updated (machine_ids w)\<rparr>
      in prune_windows j updated
           (if machine_ids w' = [] then DeleteSubrange j ws else ws[j := w']))"

text \<open>The loop over \<open>master->maintenance.schedules\<close>, erasing a schedule left without windows.\<close>

fun prune_schedules :: "MachineID list \<Rightarrow> Schedule list \<Rightarrow> Schedule list" where
  "prune_schedules updated [] = []"
| "prune_schedules updated (s # ss) =
     (let s' = s\<lparr>windows := prune_windows (length (windows s)) updated (windows s)\<rparr>
      in if windows s' = [] then prune_schedules updated ss
         else s' # prune_schedules updated ss)"

text \<open>The check that every machine is known and in \<open>DOWN\<close> mode (lines 2390-2402).\<close>

fun check_down :: "Externals \<Rightarrow> MachineID list \<Rightarrow> (MachineID \<times> Machine) list \<Rightarrow> Response option" where
  "check_down ext [] ms = None"
| "check_down ext (i # ids) ms =
     (if map_of ms i = None then
        Some (BadRequest (''Machine '' @ quoted (stringify_machine ext i) @
                          '' is not part of a maintenance schedule''))
      else if mode (info (machine_at ms i)) \<noteq> DOWN then
        Some (BadRequest (''Machine '' @ quoted (stringify_machine ext i) @
                          '' is not in DOWN mode and cannot be brought up''))
      else check_down ext ids ms)"

definition reactivate :: "MachineID \<Rightarrow> Master \<Rightarrow> Master" where
  "reactivate i m =
     m\<lparr>machines := modify_machine i (set_unavailability None)
                     (modify_machine i (set_mode UP) (machines m))\<rparr>"

text \<open>
  The continuation that runs once the registrar has answered \<open>result\<close> to \<open>StopMaintenance\<close>
  (lines 2406-2448).
\<close>

definition machineUp_continue :: "MachineID list \<Rightarrow> bool \<Rightarrow> Master \<Rightarrow> (Response \<times> Master) outcome" where
  "machineUp_continue ids result m =
     (if \<not> result then Inl (CHECK_failed ''result'')
      else let m1 = fold reactivate ids m
           in Inr (OK, m1\<lparr>schedules := prune_schedules ids (schedules m1)\<rparr>))"

text \<open>
  The handler when no other request runs between its checks and its continuation. The
  registrar's answer is the argument \<open>result\<close>; the continuation is run on the state the
  request was checked against. The general case is \<open>machineUp_deferred\<close> below.
\<close>

definition machineUp :: "Externals \<Rightarrow> Request \<Rightarrow> bool \<Rightarrow> Master \<Rightarrow> (Response \<times> Master) outcome" where
  "machineUp ext request result m =
     (if http_method request \<noteq> ''POST'' then
        Inr (BadRequest (''Expecting POST, got '' @ quoted (http_method request)), m)
      else case json_parse_array ext (body request) of
        Inl e \<Rightarrow> Inr (BadRequest e, m)
      | Inr jsonIds \<Rightarrow>
         (case protobuf_parse_machine_ids ext jsonIds of
            Inl e \<Rightarrow> Inr (BadRequest e, m)
          | Inr ids \<Rightarrow>
             (case validate_machines ext ids of
                Some e \<Rightarrow> Inr (BadRequest e, m)
              | None \<Rightarrow>
                 (case check_down ext ids (machines m) of
                    Some r \<Rightarrow> Inr (r, m)
                  | None \<Rightarrow> machineUp_continue ids result m))))"

section \<open>Machine down (\<open>Master::Http::machineDown\<close>, lines 2263-2348)\<close>

text \<open>\<open>master->send(pid, message)\<close>: the message is appended to the master's outbox.\<close>

definition send :: "string \<Rightarrow> Message \<Rightarrow> Master \<Rightarrow> Master" where
  "send pid msg m = m\<lparr>sent := sent m @ [(pid, msg)]\<rparr>"

text \<open>
  Modelled from the spec: \<open>Master::removeSlave\<close> is defined in master.cpp, which is not among
  the sources. The spec has the agent "immediately remove[d] from the Entity Store", whose
  machines hold the "set of agent identities currently running on" them; the note at lines
  2320-2321 says that \<open>removeSlave\<close> modifies \<open>master->machines\<close>. So the agent leaves the
  registered agents and the agent set of its machine. No machine's mode is touched.
\<close>

definition removeSlave :: "Slave \<Rightarrow> string \<Rightarrow> Master \<Rightarrow> Master" where
  "removeSlave slave message m =
     m\<lparr>slaves_registered := filter (\<lambda>s. s_id s \<noteq> s_id slave) (slaves_registered m),
       machines :=
         (if map_of (machines m) (s_machineId slave) = None then machines m
          else modify_machine (s_machineId slave)
                 (\<lambda>mc. mc\<lparr>slaves := removeAll (s_id slave) (slaves mc)\<rparr>) (machines m))\<rparr>"

definition Machine_DOWN_message :: string where
  "Machine_DOWN_message = ''Operator initiated '' @ quoted ''Machine DOWN''"

text \<open>The check that every machine is known and in \<open>DRAINING\<close> mode (lines 2289-2301).\<close>

fun check_draining :: "Externals \<Rightarrow> MachineID list \<Rightarrow> (MachineID \<times> Machine) list \<Rightarrow> Response option" where
  "check_draining ext [] ms = None"
| "check_draining ext (i # ids) ms =
     (if map_of ms i = None then
        Some (BadRequest (''Machine '' @ quoted (stringify_machine ext i) @
                          '' is not part of a maintenance schedule''))
      else if mode (info (machine_at ms i)) \<noteq> DRAINING then
        Some (BadRequest (''Machine '' @ quoted (stringify_machine ext i) @
                          '' is not in DRAINING mode and cannot be brought down''))
      else check_draining ext ids ms)"

text \<open>
  The loop over a copy of \<open>master->machines[machineId].slaves\<close> (lines 2322-2337):
  \<open>CHECK_NOTNULL\<close> on the registered agent, the shutdown message, the removal.
\<close>

fun shutdown_slaves :: "SlaveID list \<Rightarrow> Master \<Rightarrow> Master outcome" where
  "shutdown_slaves [] m = Inr m"
| "shutdown_slaves (sid # sids) m =
     (case registered_get m sid of
        None \<Rightarrow> Inl (CHECK_failed ''slave'')
      | Some slave \<Rightarrow>
          shutdown_slaves sids
            (removeSlave slave Machine_DOWN_message
               (send (s_pid slave) (ShutdownMessage Machine_DOWN_message) m)))"

text \<open>The loop over the machines of the request (lines 2316-2339).\<close>

fun shutdown_machines :: "MachineID list \<Rightarrow> Master \<Rightarrow> Master outcome" where
  "shutdown_machines [] m = Inr m"
| "shutdown_machines (i # ids) m =
     (if map_of (machines m) i \<noteq> None then
        (case shutdown_slaves (slaves (machine_at (machines m) i)) m of
           Inl e \<Rightarrow> Inl e
         | Inr m' \<Rightarrow> shutdown_machines ids m')
      else shutdown_machines ids m)"

definition deactivate :: "MachineID \<Rightarrow> Master \<Rightarrow> Master" where
  "deactivate i m = m\<lparr>machines := modify_machine i (set_mode DOWN) (machines m)\<rparr>"

text \<open>
  The continuation once the registrar has answered \<open>result\<close> to \<open>StartMaintenance\<close>
  (lines 2305-2347): \<open>CHECK(result)\<close>, the shutdown of the agents, then the \<open>DOWN\<close> mode.
\<close>

definition machineDown_continue :: "MachineID list \<Rightarrow> bool \<Rightarrow> Master \<Rightarrow> (Response \<times> Master) outcome" where
  "machineDown_continue ids result m =
     (if \<not> result then Inl (CHECK_failed ''result'')
      else case shutdown_machines ids m of
        Inl e \<Rightarrow> Inl e
      | Inr m1 \<Rightarrow> Inr (OK, fold deactivate ids m1))"

text \<open>
  The handler when no other request runs between its checks and its continuation: the
  continuation runs on the state that was checked. The general case is
  \<open>machineDown_deferred\<close> below.
\<close>

definition machineDown :: "Externals \<Rightarrow> Request \<Rightarrow> bool \<Rightarrow> Master \<Rightarrow> (Response \<times> Master) outcome" where
  "machineDown ext request result m =
     (if http_method request \<noteq> ''POST'' then
        Inr (BadRequest (''Expecting POST, got '' @ quoted (http_method request)), m)
      else case json_parse_array ext (body request) of
        Inl e \<Rightarrow> Inr (BadRequest e, m)
      | Inr jsonIds \<Rightarrow>
         (case protobuf_parse_machine_ids ext jsonIds of
            Inl e \<Rightarrow> Inr (BadRequest e, m)
          | Inr ids \<Rightarrow>
             (case validate_machines ext ids of
                Some e \<Rightarrow> Inr (BadRequest e, m)
              | None \<Rightarrow>
                 (case check_draining ext ids (machines m) of
                    Some r \<Rightarrow> Inr (r, m)
                  | None \<Rightarrow> machineDown_continue ids result m))))"

section \<open>Maintenance schedule (\<open>Master::Http::maintenanceSchedule\<close>, lines 2145-2246)\<close>

text \<open>
  Modelled from the spec: \<open>Master::updateUnavailability\<close> is defined in master.cpp, which is
  not among the sources. The spec has machines "get their unavailability window updated" and
  "reset to UP with unavailability cleared": the unavailability of \<open>master->machines[id]\<close> is
  stored, or cleared for \<open>None()\<close>. The note at lines 2211-2212 says that it modifies the
  container, as \<open>operator[]\<close> does.
\<close>

definition updateUnavailability :: "MachineID \<Rightarrow> Unavailability option \<Rightarrow> Master \<Rightarrow> Master" where
  "updateUnavailability i u m = m\<lparr>machines := modify_machine i (set_unavailability u) (machines m)\<rparr>"

text \<open>The hash map \<open>updated\<close> of lines 2204-2209: a later window overwrites an earlier one.\<close>

definition updated_of :: "Schedule \<Rightarrow> (MachineID \<times> Unavailability) list" where
  "updated_of schedule =
     fold (\<lambda>w acc. fold (\<lambda>i acc. AList.update i (w_unavailability w) acc) (machine_ids w) acc)
       (windows schedule) []"

text \<open>The body of the loop over the keys of a copy of \<open>master->machines\<close> (lines 2213-2224).\<close>

definition update_known :: "(MachineID \<times> Unavailability) list \<Rightarrow> MachineID \<Rightarrow> Master \<Rightarrow> Master" where
  "update_known updated i m =
     (case map_of updated i of
        Some u \<Rightarrow> updateUnavailability i (Some u) m
      | None \<Rightarrow>
          updateUnavailability i None
            (m\<lparr>machines := modify_machine i (set_mode UP) (machines m)\<rparr>))"

text \<open>
  The body of the inner loop of lines 2228-2238: \<open>info.CopyFrom\<close> replaces the whole
  \<open>MachineInfo\<close> by one that has the id and the \<open>DRAINING\<close> mode only.
\<close>

definition save_machine :: "Unavailability \<Rightarrow> MachineID \<Rightarrow> Master \<Rightarrow> Master" where
  "save_machine u i m =
     updateUnavailability i (Some u)
       (m\<lparr>machines :=
            modify_machine i
              (\<lambda>mc. mc\<lparr>info := \<lparr>mi_id = i, mode = DRAINING, unavailability = None\<rparr>\<rparr>)
              (machines m)\<rparr>)"

definition save_windows :: "Window list \<Rightarrow> Master \<Rightarrow> Master" where
  "save_windows ws m =
     fold (\<lambda>w m. fold (save_machine (w_unavailability w)) (machine_ids w) m) ws m"

text \<open>The continuation once the registrar has answered \<open>result\<close> to \<open>UpdateSchedule\<close>.\<close>

definition maintenanceSchedule_continue :: "Schedule \<Rightarrow> bool \<Rightarrow> Master \<Rightarrow> (Response \<times> Master) outcome" where
  "maintenanceSchedule_continue schedule result m =
     (if \<not> result then Inl (CHECK_failed ''result'')
      else let updated = updated_of schedule;
               m1 = fold (update_known updated) (map fst (machines m)) m;
               m2 = save_windows (windows schedule) m1
           in Inr (OK, m2\<lparr>schedules := [schedule]\<rparr>))"

text \<open>
  The handler: \<open>GET\<close> answers the first stored schedule (an empty one when there is none),
  \<open>POST\<close> validates and, the registrar having answered, runs the continuation; here no other
  request runs in between, so it runs on the state that was validated. The general case is
  \<open>maintenanceSchedule_deferred\<close> below.
\<close>

definition maintenanceSchedule :: "Externals \<Rightarrow> Request \<Rightarrow> bool \<Rightarrow> Master \<Rightarrow> (Response \<times> Master) outcome" where
  "maintenanceSchedule ext request result m =
     (if http_method request \<noteq> ''GET'' \<and> http_method request \<noteq> ''POST'' then
        Inr (BadRequest (''Expecting GET or POST, got '' @ quoted (http_method request)), m)
      else if http_method request = ''GET'' then
        Inr (OK_JSON (json_of_schedule ext
                        (case schedules m of [] \<Rightarrow> \<lparr>windows = []\<rparr> | s # _ \<Rightarrow> s))
               (map_of (query request) ''jsonp''), m)
      else case json_parse_object ext (body request) of
        Inl e \<Rightarrow> Inr (BadRequest e, m)
      | Inr jsonSchedule \<Rightarrow>
         (case protobuf_parse_schedule ext jsonSchedule of
            Inl e \<Rightarrow> Inr (BadRequest e, m)
          | Inr schedule \<Rightarrow>
             (case validate_schedule ext schedule (machines m) of
                Some e \<Rightarrow> Inr (BadRequest e, m)
              | None \<Rightarrow> maintenanceSchedule_continue schedule result m)))"

section \<open>The deferred continuations\<close>

text \<open>
  In the source the continuation is handed to \<open>registrar->apply(...).then(defer(...))\<close> (lines
  2187-2189, 2303-2305, 2404-2406): it runs once the registrar has answered, on the master as
  it is then, and repeats no check. Other requests may have run since the checks. The further
  argument \<open>later\<close> is the master at the time of the continuation; a rejection is answered at
  once and returns the master \<open>m\<close> of the checks. The handlers above are the case in which
  nothing has run in between, \<open>later = m\<close>.
\<close>

definition machineDown_deferred ::
  "Externals \<Rightarrow> Request \<Rightarrow> bool \<Rightarrow> Master \<Rightarrow> Master \<Rightarrow> (Response \<times> Master) outcome" where
  "machineDown_deferred ext request result m later =
     (if http_method request \<noteq> ''POST'' then
        Inr (BadRequest (''Expecting POST, got '' @ quoted (http_method request)), m)
      else case json_parse_array ext (body request) of
        Inl e \<Rightarrow> Inr (BadRequest e, m)
      | Inr jsonIds \<Rightarrow>
         (case protobuf_parse_machine_ids ext jsonIds of
            Inl e \<Rightarrow> Inr (BadRequest e, m)
          | Inr ids \<Rightarrow>
             (case validate_machines ext ids of
                Some e \<Rightarrow> Inr (BadRequest e, m)
              | None \<Rightarrow>
                 (case check_draining ext ids (machines m) of
                    Some r \<Rightarrow> Inr (r, m)
                  | None \<Rightarrow> machineDown_continue ids result later))))"

definition machineUp_deferred ::
  "Externals \<Rightarrow> Request \<Rightarrow> bool \<Rightarrow> Master \<Rightarrow> Master \<Rightarrow> (Response \<times> Master) outcome" where
  "machineUp_deferred ext request result m later =
     (if http_method request \<noteq> ''POST'' then
        Inr (BadRequest (''Expecting POST, got '' @ quoted (http_method request)), m)
      else case json_parse_array ext (body request) of
        Inl e \<Rightarrow> Inr (BadRequest e, m)
      | Inr jsonIds \<Rightarrow>
         (case protobuf_parse_machine_ids ext jsonIds of
            Inl e \<Rightarrow> Inr (BadRequest e, m)
          | Inr ids \<Rightarrow>
             (case validate_machines ext ids of
                Some e \<Rightarrow> Inr (BadRequest e, m)
              | None \<Rightarrow>
                 (case check_down ext ids (machines m) of
                    Some r \<Rightarrow> Inr (r, m)
                  | None \<Rightarrow> machineUp_continue ids result later))))"

definition maintenanceSchedule_deferred ::
  "Externals \<Rightarrow> Request \<Rightarrow> bool \<Rightarrow> Master \<Rightarrow> Master \<Rightarrow> (Response \<times> Master) outcome" where
  "maintenanceSchedule_deferred ext request result m later =
     (if http_method request \<noteq> ''GET'' \<and> http_method request \<noteq> ''POST'' then
        Inr (BadRequest (''Expecting GET or POST, got '' @ quoted (http_method request)), m)
      else if http_method request = ''GET'' then
        Inr (OK_JSON (json_of_schedule ext
                        (case schedules m of [] \<Rightarrow> \<lparr>windows = []\<rparr> | s # _ \<Rightarrow> s))
               (map_of (query request) ''jsonp''), m)
      else case json_parse_object ext (body request) of
        Inl e \<Rightarrow> Inr (BadRequest e, m)
      | Inr jsonSchedule \<Rightarrow>
         (case protobuf_parse_schedule ext jsonSchedule of
            Inl e \<Rightarrow> Inr (BadRequest e, m)
          | Inr schedule \<Rightarrow>
             (case validate_schedule ext schedule (machines m) of
                Some e \<Rightarrow> Inr (BadRequest e, m)
              | None \<Rightarrow> maintenanceSchedule_continue schedule result later)))"

section \<open>The three maintenance operations\<close>

datatype Maintenance = Schedule_update | Machine_down | Machine_up

text \<open>
  One maintenance request: checked against \<open>m\<close>, its continuation run on \<open>later\<close>.
\<close>

definition maintenance ::
  "Externals \<Rightarrow> Maintenance \<Rightarrow> Request \<Rightarrow> bool \<Rightarrow> Master \<Rightarrow> Master
   \<Rightarrow> (Response \<times> Master) outcome" where
  "maintenance ext k request result m later =
     (case k of
        Schedule_update \<Rightarrow> maintenanceSchedule_deferred ext request result m later
      | Machine_down \<Rightarrow> machineDown_deferred ext request result m later
      | Machine_up \<Rightarrow> machineUp_deferred ext request result m later)"

text \<open>The mode the master holds for a machine; a machine it does not know is \<open>UP\<close>.\<close>

definition mode_of :: "Master \<Rightarrow> MachineID \<Rightarrow> Mode" where
  "mode_of m i = mode (info (machine_at (machines m) i))"

text \<open>The cycle of the spec, \<open>UP \<rightarrow> DRAINING \<rightarrow> DOWN \<rightarrow> UP\<close>, a machine that stays as it is included.\<close>

definition cycle_step :: "Mode \<Rightarrow> Mode \<Rightarrow> bool" where
  "cycle_step a b =
     (a = b \<or> (a = UP \<and> b = DRAINING) \<or> (a = DRAINING \<and> b = DOWN) \<or> (a = DOWN \<and> b = UP))"

definition named :: "Schedule \<Rightarrow> MachineID set" where
  "named schedule = (\<Union>w\<in>set (windows schedule). set (machine_ids w))"

text \<open>
  The last window of the schedule that names the machine; it is read only for a machine
  that the schedule names.
\<close>

definition last_naming :: "Schedule \<Rightarrow> MachineID \<Rightarrow> Window" where
  "last_naming schedule i = last (filter (\<lambda>w. i \<in> set (machine_ids w)) (windows schedule))"

text \<open>
  Modelled from the spec: \<open>maintenance::validation::schedule\<close> is not among the sources. The
  spec has it "validate the schedule transitions only UP<->DRAINING machines (no machine already
  DOWN may appear)".
\<close>

definition names_no_DOWN :: "Schedule \<Rightarrow> (MachineID \<times> Machine) list \<Rightarrow> bool" where
  "names_no_DOWN schedule ms =
     (\<forall>w\<in>set (windows schedule). \<forall>i\<in>set (machine_ids w). mode (info (machine_at ms i)) \<noteq> DOWN)"

section \<open>Resource operations (\<open>Master::Http::_operation\<close>, lines 2655-2709)\<close>

text \<open>
  The resource algebra (\<open>Resources::operator-\<close>, \<open>operator+=\<close>, \<open>operator==\<close>, \<open>apply\<close>, \<open>flatten\<close>) is
  defined in resources.cpp, which is not among the sources: its operations are parameters.
  \<open>r_apply\<close> is \<open>Try<Resources>\<close>: \<open>Inl\<close> is the error.
\<close>

record Resources_ops =
  r_minus :: "Resources \<Rightarrow> Resources \<Rightarrow> Resources"
  r_plus :: "Resources \<Rightarrow> Resources \<Rightarrow> Resources"
  r_equal :: "Resources \<Rightarrow> Resources \<Rightarrow> bool"
  r_add :: "Resources \<Rightarrow> Resource \<Rightarrow> Resources"
  r_apply :: "Resources \<Rightarrow> Operation \<Rightarrow> string + Resources"
  r_flatten :: "Resources \<Rightarrow> Resources"

text \<open>
  The methods of the master that the handlers call and that are defined in master.cpp:
  parameters as well. \<open>master_apply\<close> is the outcome of the future that \<open>master->apply\<close> returns:
  \<open>Inl\<close> its failure, \<open>Inr\<close> the master once the operation is applied. The agent and the
  framework are passed by pointer in the source, by their identifier here.
\<close>

record Actions =
  master_apply :: "SlaveID \<Rightarrow> Operation \<Rightarrow> Master \<Rightarrow> string + Master"
  master_removeFramework :: "FrameworkID \<Rightarrow> Master \<Rightarrow> Master"
  master_subscribe :: "HttpConnection \<Rightarrow> Call \<Rightarrow> Master \<Rightarrow> Master"
  master_accept :: "FrameworkID \<Rightarrow> Call \<Rightarrow> Master \<Rightarrow> Master"
  master_decline :: "FrameworkID \<Rightarrow> Call \<Rightarrow> Master \<Rightarrow> Master"
  master_revive :: "FrameworkID \<Rightarrow> Master \<Rightarrow> Master"
  master_suppress :: "FrameworkID \<Rightarrow> Master \<Rightarrow> Master"
  master_kill :: "FrameworkID \<Rightarrow> Call \<Rightarrow> Master \<Rightarrow> Master"
  master_shutdown :: "FrameworkID \<Rightarrow> Call \<Rightarrow> Master \<Rightarrow> Master"
  master_acknowledge :: "FrameworkID \<Rightarrow> Call \<Rightarrow> Master \<Rightarrow> Master"
  master_reconcile :: "FrameworkID \<Rightarrow> Call \<Rightarrow> Master \<Rightarrow> Master"
  master_message :: "FrameworkID \<Rightarrow> Call \<Rightarrow> Master \<Rightarrow> Master"
  master_request :: "FrameworkID \<Rightarrow> Call \<Rightarrow> Master \<Rightarrow> Master"

text \<open>
  \<open>master->allocator->recoverResources(framework, agent, resources, Filters())\<close>: the call is
  recorded; \<open>Filters()\<close> has the default \<open>refuse_seconds\<close> of 5 (lines 2684-2686).
\<close>

definition recoverResources :: "FrameworkID \<Rightarrow> SlaveID \<Rightarrow> Resources \<Rightarrow> Master \<Rightarrow> Master" where
  "recoverResources fid sid rs m =
     m\<lparr>allocator_calls := allocator_calls m @ [RecoverResources fid sid rs 5]\<rparr>"

text \<open>
  Modelled from the spec: \<open>Master::removeOffer\<close> is defined in master.cpp, which is not among
  the sources. The spec has it "remove the offer from the Entity Store and mark it rescinded
  to the owning framework": the offer leaves the offers of the master, of its agent and of
  its framework, and with \<open>rescind\<close> the framework is sent the rescind message.
\<close>

definition removeOffer :: "Offer \<Rightarrow> bool \<Rightarrow> Master \<Rightarrow> Master" where
  "removeOffer offer rescind m =
     (let m1 = m\<lparr>offers := filter (\<lambda>x. o_id x \<noteq> o_id offer) (offers m),
                 slaves_registered :=
                   map (\<lambda>s. if s_id s = slave_id offer
                            then s\<lparr>s_offers := filter (\<lambda>x. o_id x \<noteq> o_id offer) (s_offers s)\<rparr>
                            else s) (slaves_registered m),
                 frameworks :=
                   map (\<lambda>f. if f_id f = framework_id offer
                            then f\<lparr>f_offers := removeAll (o_id offer) (f_offers f)\<rparr>
                            else f) (frameworks m)\<rparr>
      in if rescind then send (framework_id offer) (RescindResourceOfferMessage (o_id offer)) m1
         else m1)"

text \<open>The rescission of one offer (lines 2687-2693).\<close>

definition rescind :: "Offer \<Rightarrow> Master \<Rightarrow> Master" where
  "rescind offer m =
     removeOffer offer True
       (recoverResources (framework_id offer) (slave_id offer) (resources offer) m)"

text \<open>
  The loop over a copy of \<open>slave->offers\<close> (lines 2674-2700), with \<open>continue\<close> and \<open>break\<close> as
  written. It returns \<open>required\<close>, \<open>recovered\<close> and the master as the loop leaves them; the
  fourth component is not in the source: it lists the offers the loop has rescinded, in order.
\<close>

fun rescind_offers ::
  "Resources_ops \<Rightarrow> Operation \<Rightarrow> Offer list \<Rightarrow> Resources \<Rightarrow> Resources \<Rightarrow> Master
   \<Rightarrow> Resources \<times> Resources \<times> Master \<times> Offer list" where
  "rescind_offers ops operation [] required recovered m = (required, recovered, m, [])"
| "rescind_offers ops operation (offer # rest) required recovered m =
     (if r_equal ops required (r_minus ops required (resources offer)) then
        rescind_offers ops operation rest required recovered m
      else
        let recovered' = r_plus ops recovered (resources offer);
            required' = r_minus ops required (resources offer);
            m' = rescind offer m
        in if isl (r_apply ops recovered' operation) then
             (case rescind_offers ops operation rest required' recovered' m' of
                (rq, rc, mm, rs) \<Rightarrow> (rq, rc, mm, offer # rs))
           else (required', recovered', m', [offer]))"

definition Http_operation ::
  "Resources_ops \<Rightarrow> Actions \<Rightarrow> SlaveID \<Rightarrow> Resources \<Rightarrow> Operation \<Rightarrow> Master
   \<Rightarrow> (Response \<times> Master) outcome" where
  "Http_operation ops act slaveId required operation m =
     (case registered_get m slaveId of
        None \<Rightarrow> Inr (BadRequest ''No slave found with specified ID'', m)
      | Some slave \<Rightarrow>
         (case rescind_offers ops operation (s_offers slave) required [] m of
            (required', recovered', m', rs) \<Rightarrow>
              (case master_apply act slaveId operation m' of
                 Inl failure \<Rightarrow> Inr (Conflict failure, m')
               | Inr m'' \<Rightarrow> Inr (OK, m''))))"

text \<open>
  The claim's words for the loop: each rescinded offer reduced what was still required when
  the loop came to it, and an offer is rescinded after another one only if the resources
  recovered up to then did not let the operation apply.
\<close>

fun justified :: "Resources_ops \<Rightarrow> Operation \<Rightarrow> Resources \<Rightarrow> Resources \<Rightarrow> Offer list \<Rightarrow> bool" where
  "justified ops operation required recovered [] = True"
| "justified ops operation required recovered (offer # rs) =
     (\<not> r_equal ops required (r_minus ops required (resources offer)) \<and>
      (rs \<noteq> [] \<longrightarrow> isl (r_apply ops (r_plus ops recovered (resources offer)) operation)) \<and>
      justified ops operation (r_minus ops required (resources offer))
        (r_plus ops recovered (resources offer)) rs)"

definition outstanding :: "Master \<Rightarrow> OfferID \<Rightarrow> Offer option" where
  "outstanding m oid = find (\<lambda>x. o_id x = oid) (offers m)"

section \<open>Authentication (\<open>Master::Http::authenticate\<close>, lines 2613-2652)\<close>




section \<open>The operator endpoints (lines 907-1065, 1321-1398, 1928-2005, 2540-2610)\<close>








text \<open>\<open>Master::Http::_teardown\<close> (lines 1993-2005).\<close>

definition Http_teardown :: "Actions \<Rightarrow> FrameworkID \<Rightarrow> Master \<Rightarrow> (Response \<times> Master) outcome" where
  "Http_teardown act fid m =
     (case getFramework m fid of
        None \<Rightarrow> Inr (BadRequest (''No framework found with ID '' @ fid), m)
      | Some framework \<Rightarrow> Inr (OK, master_removeFramework act fid m))"




definition is_Unauthorized :: "(Response \<times> Master) outcome \<Rightarrow> bool" where
  "is_Unauthorized r = (case r of Inr (Unauthorized _ _, _) \<Rightarrow> True | _ \<Rightarrow> False)"

section \<open>Scheduler calls (\<open>Master::Http::scheduler\<close>, lines 715-879)\<close>

text \<open>The media types of common/http.hpp, which is not among the sources.\<close>

definition APPLICATION_JSON :: string where
  "APPLICATION_JSON = ''application/json''"

definition APPLICATION_PROTOBUF :: string where
  "APPLICATION_PROTOBUF = ''application/x-protobuf''"

text \<open>The body decoded by its content type (lines 753-777).\<close>

definition parse_call :: "Externals \<Rightarrow> string \<Rightarrow> string \<Rightarrow> Response + Call" where
  "parse_call ext contentType text =
     (if contentType = APPLICATION_PROTOBUF then
        (case ParseFromString ext text of
           None \<Rightarrow> Inl (BadRequest ''Failed to parse body into Call protobuf'')
         | Some v1Call \<Rightarrow> Inr v1Call)
      else if contentType = APPLICATION_JSON then
        (case json_parse_value ext text of
           Inl e \<Rightarrow> Inl (BadRequest (''Failed to parse body into JSON: '' @ e))
         | Inr v \<Rightarrow>
            (case protobuf_parse_call ext v of
               Inl e \<Rightarrow> Inl (BadRequest (''Failed to convert JSON into Call protobuf: '' @ e))
             | Inr v1Call \<Rightarrow> Inr v1Call))
      else
        Inl (UnsupportedMediaType (''Expecting '' @ quoted ''Content-Type'' @ '' of '' @
                                   APPLICATION_JSON @ '' or '' @ APPLICATION_PROTOBUF)))"

text \<open>
  The framework lookup and the switch on the call type (lines 816-878). The switch has no case
  for \<open>SUBSCRIBE\<close>: like an unknown type it would reach the \<open>LOG(FATAL)\<close> of the default.
\<close>

definition dispatch :: "Actions \<Rightarrow> Call \<Rightarrow> Master \<Rightarrow> (Response \<times> Master) outcome" where
  "dispatch act call m =
     (case getFramework m (call_framework_id call) of
        None \<Rightarrow> Inr (BadRequest ''Framework cannot be found'', m)
      | Some framework \<Rightarrow>
          if \<not> connected framework then Inr (Forbidden ''Framework is not subscribed'', m)
          else
            (case call_type call of
               TEARDOWN \<Rightarrow> Inr (Accepted, master_removeFramework act (f_id framework) m)
             | ACCEPT \<Rightarrow> Inr (Accepted, master_accept act (f_id framework) call m)
             | DECLINE \<Rightarrow> Inr (Accepted, master_decline act (f_id framework) call m)
             | REVIVE \<Rightarrow> Inr (Accepted, master_revive act (f_id framework) m)
             | SUPPRESS \<Rightarrow> Inr (Accepted, master_suppress act (f_id framework) m)
             | KILL \<Rightarrow> Inr (Accepted, master_kill act (f_id framework) call m)
             | SHUTDOWN \<Rightarrow> Inr (Accepted, master_shutdown act (f_id framework) call m)
             | ACKNOWLEDGE \<Rightarrow> Inr (Accepted, master_acknowledge act (f_id framework) call m)
             | RECONCILE \<Rightarrow> Inr (Accepted, master_reconcile act (f_id framework) call m)
             | MESSAGE \<Rightarrow> Inr (Accepted, master_message act (f_id framework) call m)
             | REQUEST \<Rightarrow> Inr (Accepted, master_request act (f_id framework) call m)
             | _ \<Rightarrow> Inl (CHECK_failed ''Unexpected call'')))"

text \<open>
  The \<open>SUBSCRIBE\<close> branch (lines 788-814). \<open>pipe\<close> is the \<open>Pipe\<close> the handler constructs: the
  response holds its reader, the connection handed to \<open>master->subscribe\<close> its writer.
\<close>

definition subscribe_call ::
  "Externals \<Rightarrow> Actions \<Rightarrow> Request \<Rightarrow> Pipe \<Rightarrow> Call \<Rightarrow> Master \<Rightarrow> (Response \<times> Master) outcome" where
  "subscribe_call ext act request pipe call m =
     (case (if acceptsMediaType ext request APPLICATION_JSON then Some JSON_type
            else if acceptsMediaType ext request APPLICATION_PROTOBUF then Some PROTOBUF_type
            else None) of
        None \<Rightarrow>
          Inr (NotAcceptable (''Expecting '' @ quoted ''Accept'' @ '' to allow '' @
                              quoted APPLICATION_PROTOBUF @ '' or '' @ quoted APPLICATION_JSON), m)
      | Some responseContentType \<Rightarrow>
          Inr (OK_PIPE responseContentType pipe,
               master_subscribe act \<lparr>h_writer = pipe, h_contentType = responseContentType\<rparr> call m))"

definition scheduler ::
  "Externals \<Rightarrow> Actions \<Rightarrow> Request \<Rightarrow> Pipe \<Rightarrow> Master \<Rightarrow> (Response \<times> Master) outcome" where
  "scheduler ext act request pipe m =
     (if \<not> elected m then Inr (ServiceUnavailable ''Not the leading master'', m)
      else case master_recovered m of
        None \<Rightarrow> Inl (CHECK_failed ''recovered'')
      | Some ready \<Rightarrow>
          if \<not> ready then Inr (ServiceUnavailable ''Master has not finished recovery'', m)
          else if authenticate_frameworks m then
            Inr (Unauthorized ''Mesos master''
                   (Some ''HTTP schedulers are not supported when authentication is required''), m)
          else if http_method request \<noteq> ''POST'' then
            Inr (MethodNotAllowed (''Expecting a '' @ quoted ''POST'' @ '' request, received '' @
                                   quoted (http_method request)), m)
          else
            (case map_of (headers request) ''Content-Type'' of
               None \<Rightarrow>
                 Inr (BadRequest (''Expecting '' @ quoted ''Content-Type'' @ '' to be present''), m)
             | Some contentType \<Rightarrow>
                (case parse_call ext contentType (body request) of
                   Inl r \<Rightarrow> Inr (r, m)
                 | Inr v1Call \<Rightarrow>
                    (let call = devolve ext v1Call in
                     case validate_call ext call of
                       Some e \<Rightarrow>
                         Inr (BadRequest (''Failed to validate Scheduler::Call: '' @ e), m)
                     | None \<Rightarrow>
                         if call_type call = SUBSCRIBE then
                           subscribe_call ext act request pipe call m
                         else dispatch act call m))))"

text \<open>
  The request passes every check of lines 721-786 and holds \<open>call\<close>: the call is validated and
  reaches the branch on its type.
\<close>

definition validated :: "Externals \<Rightarrow> Request \<Rightarrow> Master \<Rightarrow> Call \<Rightarrow> bool" where
  "validated ext request m call =
     (elected m \<and> master_recovered m = Some True \<and> \<not> authenticate_frameworks m \<and>
      http_method request = ''POST'' \<and>
      (case map_of (headers request) ''Content-Type'' of
         None \<Rightarrow> False
       | Some contentType \<Rightarrow>
          (case parse_call ext contentType (body request) of
             Inl r \<Rightarrow> False
           | Inr v1Call \<Rightarrow> call = devolve ext v1Call \<and> validate_call ext call = None)))"

text \<open>The response of a handler, without the master it leaves.\<close>

definition response_of :: "(Response \<times> Master) outcome \<Rightarrow> Response outcome" where
  "response_of r = (case r of Inl fatal \<Rightarrow> Inl fatal | Inr (response, m) \<Rightarrow> Inr response)"

section \<open>Proof-side characterisations\<close>

text \<open>What the backward loops of machine-up do to one window: a filter.\<close>

definition prune_window :: "MachineID list \<Rightarrow> Window \<Rightarrow> Window" where
  "prune_window upd w = w\<lparr>machine_ids := filter (\<lambda>x. x \<notin> set upd) (machine_ids w)\<rparr>"

text \<open>One turn of the loop over the agents of a machine: the send, then the removal.\<close>

definition shutdown_one :: "Slave \<Rightarrow> Master \<Rightarrow> Master" where
  "shutdown_one slave m =
     removeSlave slave Machine_DOWN_message
       (send (s_pid slave) (ShutdownMessage Machine_DOWN_message) m)"

text \<open>
  The agent \<open>sid\<close>, registered in \<open>m\<close>, is no longer registered in \<open>m'\<close> and the shutdown
  message has been sent to its pid.
\<close>

definition shut_down :: "Master \<Rightarrow> Master \<Rightarrow> SlaveID \<Rightarrow> bool" where
  "shut_down m m' sid =
     (registered_get m' sid = None \<and>
      (\<exists>slave. registered_get m sid = Some slave \<and>
         (s_pid slave, ShutdownMessage Machine_DOWN_message) \<in> set (sent m')))"

text \<open>What the shutdown loops keep from \<open>m\<close> to \<open>m'\<close>.\<close>

definition only_removals :: "Master \<Rightarrow> Master \<Rightarrow> bool" where
  "only_removals m m' =
     ((\<forall>sid. registered_get m' sid = None \<or> registered_get m' sid = registered_get m sid) \<and>
      set (sent m) \<subseteq> set (sent m') \<and>
      (\<forall>j. \<forall>sid\<in>set (slaves (machine_at (machines m) j)).
          sid \<in> set (slaves (machine_at (machines m') j)) \<or> shut_down m m' sid) \<and>
      (\<forall>j. (map_of (machines m') j = None) = (map_of (machines m) j = None)) \<and>
      (\<forall>j. mode (info (machine_at (machines m') j)) = mode (info (machine_at (machines m) j))))"

text \<open>The stored state of a machine, as the claims speak of it.\<close>

definition is_draining :: "Master \<Rightarrow> MachineID \<Rightarrow> Unavailability \<Rightarrow> bool" where
  "is_draining m i u = (\<exists>mc. map_of (machines m) i = Some mc \<and> mode (info mc) = DRAINING \<and> unavailability (info mc) = Some u)"

definition is_up :: "Master \<Rightarrow> MachineID \<Rightarrow> bool" where
  "is_up m i = (\<exists>mc. map_of (machines m) i = Some mc \<and> mode (info mc) = UP \<and> unavailability (info mc) = None)"

section \<open>Example configurations\<close>

text \<open>
  Stand-ins for the collaborators and small masters, on which the handlers are evaluated. The
  stand-in parsers read one machine or resource per character of the text; the stand-in
  query decoder takes the first two characters as the agent's id; the stand-in resource
  algebra treats resources as sets of items; the stand-in schedule validation is
  \<open>names_no_DOWN\<close>.
\<close>

definition res :: "string \<Rightarrow> Resource" where
  "res n = \<lparr>name = n, scalar = 1, role = None, reservation = None, disk = None\<rparr>"

definition volume :: "string \<Rightarrow> Resource" where
  "volume n = \<lparr>name = n, scalar = 1, role = Some ''ads'', reservation = Some ''ops'', disk = Some ''vol''\<rparr>"

definition split_first :: "char \<Rightarrow> string \<Rightarrow> string list" where
  "split_first d s =
     (if d \<in> set s then [takeWhile (\<lambda>c. c \<noteq> d) s, tl (dropWhile (\<lambda>c. c \<noteq> d) s)] else [s])"

definition ext0 :: Externals where
  "ext0 = \<lparr>json_parse_object = Inr, json_parse_array = Inr,
           protobuf_parse_schedule = (\<lambda>j. Inr \<lparr>windows = (if j = [] then [] else [\<lparr>machine_ids = map (\<lambda>c. [c]) j, w_unavailability = \<lparr>u_start = 7, u_duration = None\<rparr>\<rparr>])\<rparr>),
           protobuf_parse_machine_ids = (\<lambda>j. Inr (map (\<lambda>c. [c]) j)),
           validate_schedule = (\<lambda>s ms. if names_no_DOWN s ms then None else Some ''DOWN''), validate_machines = (\<lambda>ids. None),
           json_of_schedule = (\<lambda>s. concat (concat (map machine_ids (windows s)))), stringify_machine = (\<lambda>i. i),
           query_decode = (\<lambda>b. Inr [(''slaveId'', take 2 b), (''resources'', drop 2 b),
                                      (''volumes'', drop 2 b), (''frameworkId'', b)]),
           json_array_values = map (\<lambda>c. [c]),
           protobuf_parse_resource = (\<lambda>j. Inr (volume j)),
           validate_create = (\<lambda>v c. None), validate_destroy = (\<lambda>v c. None),
           validate_reserve = (\<lambda>r p. None), validate_unreserve = (\<lambda>r b. None),
           base64_decode = Inr,
           strings_split = (\<lambda>s delims n. split_first (hd delims) s),
           ParseFromString = (\<lambda>b. None),
           json_parse_value = Inr,
           protobuf_parse_call = (\<lambda>j. Inr \<lparr>call_type = (if take 1 j = ''S'' then SUBSCRIBE else KILL),
                                               call_framework_id = drop 1 j, call_payload = []\<rparr>),
           devolve = (\<lambda>c. c),
           validate_call = (\<lambda>c. None),
           acceptsMediaType = (\<lambda>r t. map_of (headers r) ''Accept'' = Some t)\<rparr>"

definition master0 :: Master where
  "master0 = \<lparr>elected = True, master_recovered = Some True, authenticate_frameworks = False,
     credentials = None, authorizer = None, frameworks = [], slaves_registered = [],
     offers = [], machines = [], schedules = [], sent = [], allocator_calls = []\<rparr>"

definition unavail :: "int \<Rightarrow> Unavailability" where
  "unavail t = \<lparr>u_start = t, u_duration = None\<rparr>"

definition machine_in :: "MachineID \<Rightarrow> Mode \<Rightarrow> Unavailability option \<Rightarrow> SlaveID list \<Rightarrow> Machine" where
  "machine_in i md u ss = \<lparr>info = \<lparr>mi_id = i, mode = md, unavailability = u\<rparr>, slaves = ss\<rparr>"

definition post :: "string \<Rightarrow> Request" where
  "post b = \<lparr>http_method = ''POST'', headers = [], body = b, query = []\<rparr>"

definition master_down :: Master where
  "master_down = master0\<lparr>
     machines := [(''a'', machine_in ''a'' DOWN (Some (unavail 1)) []),
                  (''b'', machine_in ''b'' DOWN (Some (unavail 1)) []),
                  (''c'', machine_in ''c'' DRAINING (Some (unavail 3)) [])],
     schedules := [\<lparr>windows = [\<lparr>machine_ids = [''a'', ''b''], w_unavailability = unavail 1\<rparr>,
                                \<lparr>machine_ids = [''a''], w_unavailability = unavail 2\<rparr>,
                                \<lparr>machine_ids = [''b'', ''c''], w_unavailability = unavail 3\<rparr>]\<rparr>,
                   \<lparr>windows = [\<lparr>machine_ids = [''a''], w_unavailability = unavail 4\<rparr>]\<rparr>]\<rparr>"

definition master_draining :: Master where
  "master_draining = master0\<lparr>
     machines := [(''a'', machine_in ''a'' DRAINING (Some (unavail 1)) [''s1'']),
                  (''b'', machine_in ''b'' DRAINING (Some (unavail 1)) [])],
     schedules := [\<lparr>windows = [\<lparr>machine_ids = [''a'', ''b''], w_unavailability = unavail 1\<rparr>]\<rparr>]\<rparr>"

definition master_rescheduled :: Master where
  "master_rescheduled = master0\<lparr>
     machines := [(''a'', machine_in ''a'' UP None [''s1'']),
                  (''b'', machine_in ''b'' DRAINING (Some (unavail 7)) []),
                  (''c'', machine_in ''c'' DRAINING (Some (unavail 7)) [])],
     schedules := [\<lparr>windows = [\<lparr>machine_ids = [''b'', ''c''], w_unavailability = unavail 7\<rparr>]\<rparr>]\<rparr>"

definition master_agents :: Master where
  "master_agents = master0\<lparr>
     slaves_registered :=
       [\<lparr>s_id = ''s1'', s_pid = ''p1'', s_machineId = ''a'', s_offers = [],
         checkpointedResources = []\<rparr>,
        \<lparr>s_id = ''s2'', s_pid = ''p2'', s_machineId = ''b'', s_offers = [],
         checkpointedResources = []\<rparr>],
     machines := [(''a'', machine_in ''a'' DRAINING (Some (unavail 1)) [''s1'']),
                  (''b'', machine_in ''b'' DRAINING (Some (unavail 1)) [''s2''])]\<rparr>"

definition master_agents_down :: Master where
  "master_agents_down = master0\<lparr>
     slaves_registered :=
       [\<lparr>s_id = ''s2'', s_pid = ''p2'', s_machineId = ''b'', s_offers = [],
         checkpointedResources = []\<rparr>],
     machines := [(''a'', machine_in ''a'' DOWN (Some (unavail 1)) []),
                  (''b'', machine_in ''b'' DRAINING (Some (unavail 1)) [''s2''])],
     sent := [(''p1'', ShutdownMessage Machine_DOWN_message)]\<rparr>"

fun operation_resources :: "Operation \<Rightarrow> Resources" where
  "operation_resources (RESERVE rs) = rs"
| "operation_resources (UNRESERVE rs) = rs"
| "operation_resources (CREATE rs) = rs"
| "operation_resources (DESTROY rs) = rs"

definition ops0 :: Resources_ops where
  "ops0 = \<lparr>r_minus = (\<lambda>a b. filter (\<lambda>x. x \<notin> set b) a), r_plus = (@), r_equal = (=),
           r_add = (\<lambda>a x. a @ [x]),
           r_apply = (\<lambda>rs operation.
              if set (operation_resources operation) \<subseteq> set rs then Inr rs
              else Inl ''insufficient''),
           r_flatten = map (\<lambda>r. r\<lparr>role := None, reservation := None\<rparr>)\<rparr>"

definition act0 :: Actions where
  "act0 = \<lparr>master_apply = (\<lambda>sid operation m. Inr m),
           master_removeFramework = (\<lambda>fid m. m\<lparr>frameworks := filter (\<lambda>f. f_id f \<noteq> fid) (frameworks m)\<rparr>),
           master_subscribe = (\<lambda>http call m.
              m\<lparr>frameworks := frameworks m @
                   [\<lparr>f_id = call_framework_id call, connected = True, f_principal = None,
                     f_offers = []\<rparr>]\<rparr>),
           master_accept = (\<lambda>fid call m. m), master_decline = (\<lambda>fid call m. m),
           master_revive = (\<lambda>fid m. m), master_suppress = (\<lambda>fid m. m),
           master_kill = (\<lambda>fid call m. m), master_shutdown = (\<lambda>fid call m. m),
           master_acknowledge = (\<lambda>fid call m. m), master_reconcile = (\<lambda>fid call m. m),
           master_message = (\<lambda>fid call m. m), master_request = (\<lambda>fid call m. m)\<rparr>"

definition act_conflict :: Actions where
  "act_conflict = act0\<lparr>master_apply := (\<lambda>sid operation m. Inl ''no longer available'')\<rparr>"

definition offer_of :: "OfferID \<Rightarrow> Resources \<Rightarrow> Offer" where
  "offer_of oid rs = \<lparr>o_id = oid, framework_id = ''f1'', slave_id = ''s1'', resources = rs\<rparr>"

definition agent_with :: "Offer list \<Rightarrow> Slave" where
  "agent_with os = \<lparr>s_id = ''s1'', s_pid = ''p1'', s_machineId = ''a'', s_offers = os,
                    checkpointedResources = []\<rparr>"

definition framework_with :: "bool \<Rightarrow> OfferID list \<Rightarrow> Framework" where
  "framework_with c os = \<lparr>f_id = ''f1'', connected = c, f_principal = None, f_offers = os\<rparr>"

definition master_offers :: Master where
  "master_offers = master0\<lparr>
     frameworks := [framework_with True [''A'', ''B'', ''C'']],
     slaves_registered :=
       [agent_with [offer_of ''A'' [res ''cpu''], offer_of ''B'' [res ''mem''],
                    offer_of ''C'' [res ''gpu'']]],
     offers := [offer_of ''A'' [res ''cpu''], offer_of ''B'' [res ''mem''],
                offer_of ''C'' [res ''gpu'']]\<rparr>"

definition master_rescinded :: Master where
  "master_rescinded = master0\<lparr>
     frameworks := [framework_with True [''C'']],
     slaves_registered := [agent_with [offer_of ''C'' [res ''gpu'']]],
     offers := [offer_of ''C'' [res ''gpu'']],
     sent := [(''f1'', RescindResourceOfferMessage ''A''),
              (''f1'', RescindResourceOfferMessage ''B'')],
     allocator_calls := [RecoverResources ''f1'' ''s1'' [res ''cpu''] 5,
                         RecoverResources ''f1'' ''s1'' [res ''mem''] 5]\<rparr>"

definition call_request :: "string \<Rightarrow> string \<Rightarrow> Request" where
  "call_request accept b =
     \<lparr>http_method = ''POST'',
      headers = [(''Content-Type'', ''application/json''), (''Accept'', accept)],
      body = b, query = []\<rparr>"

definition master_disconnected :: Master where
  "master_disconnected = master0\<lparr>frameworks := [framework_with False []]\<rparr>"




definition overlapping :: Schedule where
  "overlapping =
     \<lparr>windows = [\<lparr>machine_ids = [''a'', ''b''], w_unavailability = unavail 10\<rparr>,
                 \<lparr>machine_ids = [''b''], w_unavailability = unavail 20\<rparr>]\<rparr>"

definition ext_overlapping :: Externals where
  "ext_overlapping = ext0\<lparr>protobuf_parse_schedule := (\<lambda>j. Inr overlapping)\<rparr>"

definition master_overlapping :: Master where
  "master_overlapping = master0\<lparr>
     machines := [(''a'', machine_in ''a'' DRAINING (Some (unavail 10)) []),
                  (''b'', machine_in ''b'' DRAINING (Some (unavail 20)) [])],
     schedules := [overlapping]\<rparr>"

definition master_a_dropped :: Master where
  "master_a_dropped = master_agents\<lparr>
     machines := [(''a'', machine_in ''a'' UP None [''s1'']),
                  (''b'', machine_in ''b'' DRAINING (Some (unavail 7)) [''s2''])],
     schedules := [\<lparr>windows = [\<lparr>machine_ids = [''b''], w_unavailability = unavail 7\<rparr>]\<rparr>]\<rparr>"

definition master_a_dropped_down :: Master where
  "master_a_dropped_down = master_a_dropped\<lparr>
     slaves_registered :=
       [\<lparr>s_id = ''s2'', s_pid = ''p2'', s_machineId = ''b'', s_offers = [],
         checkpointedResources = []\<rparr>],
     machines := [(''a'', machine_in ''a'' DOWN None []),
                  (''b'', machine_in ''b'' DRAINING (Some (unavail 7)) [''s2''])],
     sent := [(''p1'', ShutdownMessage Machine_DOWN_message)]\<rparr>"

definition fetch_schedule :: Request where
  "fetch_schedule = \<lparr>http_method = ''GET'', headers = [], body = [], query = []\<rparr>"

section \<open>Machines: basic facts\<close>

lemma map_of_modify_machine:
  "map_of (modify_machine i f ms) = (map_of ms)(i \<mapsto> f (machine_at ms i))"
  by (simp add: modify_machine_def update_conv')

lemma machine_at_modify_machine:
  "machine_at (modify_machine i f ms) j = (if j = i then f (machine_at ms i) else machine_at ms j)"
  by (simp add: machine_at_def map_of_modify_machine)

section \<open>Machine up prunes the schedules\<close>

lemma delete_machine_ids_eq:
  "k \<le> length xs \<Longrightarrow>
   delete_machine_ids k upd xs = filter (\<lambda>x. x \<notin> set upd) (take k xs) @ drop k xs"
proof (induction k arbitrary: xs)
  case 0
  then show ?case by simp
next
  case (Suc k)
  then have lt: "k < length xs" by simp
  show ?case
  proof (cases "xs ! k \<in> set upd")
    case True
    have "k \<le> length (DeleteSubrange k xs)"
      using lt by (simp add: DeleteSubrange_def)
    from Suc.IH [OF this] True lt show ?thesis
      by (simp add: DeleteSubrange_def take_Suc_conv_app_nth)
  next
    case False
    from Suc.IH [of xs] False lt show ?thesis
      by (simp add: take_Suc_conv_app_nth Cons_nth_drop_Suc)
  qed
qed

lemma prune_windows_eq:
  "j \<le> length ws \<Longrightarrow>
   prune_windows j upd ws =
     filter (\<lambda>w. machine_ids w \<noteq> []) (map (prune_window upd) (take j ws)) @ drop j ws"
proof (induction j arbitrary: ws)
  case 0
  then show ?case by simp
next
  case (Suc j)
  then have lt: "j < length ws" by simp
  let ?w = "prune_window upd (ws ! j)"
  have step: "prune_windows (Suc j) upd ws =
      prune_windows j upd (if machine_ids ?w = [] then DeleteSubrange j ws else ws[j := ?w])"
    by (simp add: Let_def prune_window_def delete_machine_ids_eq)
  show ?case
  proof (cases "machine_ids ?w = []")
    case True
    have "j \<le> length (DeleteSubrange j ws)"
      using lt by (simp add: DeleteSubrange_def)
    from Suc.IH [OF this] True lt show ?thesis
      unfolding step by (simp add: DeleteSubrange_def take_Suc_conv_app_nth)
  next
    case False
    have "j \<le> length (ws[j := ?w])" using lt by simp
    from Suc.IH [OF this] False lt show ?thesis
      unfolding step by (simp add: take_Suc_conv_app_nth upd_conv_take_nth_drop)
  qed
qed

lemma prune_schedules_eq:
  "prune_schedules upd ss =
     filter (\<lambda>s. windows s \<noteq> [])
       (map (\<lambda>s. s\<lparr>windows := filter (\<lambda>w. machine_ids w \<noteq> []) (map (prune_window upd) (windows s))\<rparr>) ss)"
  by (induction ss) (simp_all add: prune_windows_eq Let_def)

lemma check_down_None:
  "check_down ext ids ms = None \<Longrightarrow> i \<in> set ids \<Longrightarrow>
   map_of ms i \<noteq> None \<and> mode (info (machine_at ms i)) = DOWN"
  by (induction ids) (auto split: if_splits)

lemma reactivate_machines:
  "map_of (machines (reactivate i m)) =
   (map_of (machines m))(i \<mapsto> set_unavailability None (set_mode UP (machine_at (machines m) i)))"
  by (simp add: reactivate_def map_of_modify_machine machine_at_modify_machine)

lemma reactivate_schedules: "schedules (reactivate i m) = schedules m"
  by (simp add: reactivate_def)

lemma fold_reactivate_schedules: "schedules (fold reactivate ids m) = schedules m"
  by (induction ids arbitrary: m) (simp_all add: reactivate_schedules)

lemma fold_reactivate_up:
  "i \<in> set ids \<Longrightarrow> is_up (fold reactivate ids m) i"
proof (induction ids arbitrary: m rule: rev_induct)
  case Nil
  then show ?case by simp
next
  case (snoc x xs)
  show ?case
  proof (cases "i = x")
    case True
    then show ?thesis
      by (simp add: is_up_def reactivate_machines set_unavailability_def set_mode_def)
  next
    case False
    with snoc have "is_up (fold reactivate xs m) i" by simp
    with False show ?thesis
      by (simp add: is_up_def reactivate_machines)
  qed
qed


lemma machineUp_OK:
  assumes "machineUp ext request result m = Inr (OK, m')"
    and "json_parse_array ext (body request) = Inr j"
    and "protobuf_parse_machine_ids ext j = Inr ids"
  shows "check_down ext ids (machines m) = None \<and> result \<and>
         m' = (fold reactivate ids m)\<lparr>schedules := prune_schedules ids (schedules m)\<rparr>"
proof -
  have nb: "\<And>r. check_down ext ids (machines m) = Some r \<Longrightarrow> r \<noteq> OK"
    by (induction ids) (auto split: if_splits)
  from assms nb show ?thesis
    by (auto simp: machineUp_def machineUp_continue_def fold_reactivate_schedules
             split: if_splits option.splits)
qed

text \<open>
  Claim C5. After a machine-up request that is answered \<open>OK\<close>, every targeted machine is
  stored in \<open>UP\<close> mode with no unavailability, no window of a stored schedule names a
  targeted machine, no stored schedule has an empty window, and no stored schedule is empty.
\<close>

theorem C5_machineUp_prunes_schedules:
  assumes "machineUp ext request result m = Inr (OK, m')"
    and "json_parse_array ext (body request) = Inr j"
    and "protobuf_parse_machine_ids ext j = Inr ids"
  shows "(\<forall>i\<in>set ids. \<exists>mc. map_of (machines m') i = Some mc \<and> mode (info mc) = UP \<and>
                                unavailability (info mc) = None) \<and>
         (\<forall>s\<in>set (schedules m'). windows s \<noteq> [] \<and>
            (\<forall>w\<in>set (windows s). machine_ids w \<noteq> [] \<and> set (machine_ids w) \<inter> set ids = {}))"
proof -
  from machineUp_OK [OF assms]
  have m': "m' = (fold reactivate ids m)\<lparr>schedules := prune_schedules ids (schedules m)\<rparr>"
    by simp
  have up: "\<forall>i\<in>set ids. \<exists>mc. map_of (machines m') i = Some mc \<and> mode (info mc) = UP \<and>
                                unavailability (info mc) = None"
    using fold_reactivate_up [of _ ids m] by (simp add: m' is_up_def)
  have pr: "\<forall>s\<in>set (schedules m'). windows s \<noteq> [] \<and>
            (\<forall>w\<in>set (windows s). machine_ids w \<noteq> [] \<and> set (machine_ids w) \<inter> set ids = {})"
    by (auto simp: m' prune_schedules_eq prune_window_def)
  from up pr show ?thesis by blast
qed

theorem C5_machineUp_prunes_schedules_witness:
  "machineUp ext0 (post ''a'') True master_down =
     Inr (OK, master_down\<lparr>
       machines := [(''a'', machine_in ''a'' UP None []),
                    (''b'', machine_in ''b'' DOWN (Some (unavail 1)) []),
                    (''c'', machine_in ''c'' DRAINING (Some (unavail 3)) [])],
       schedules := [\<lparr>windows = [\<lparr>machine_ids = [''b''], w_unavailability = unavail 1\<rparr>,
                                  \<lparr>machine_ids = [''b'', ''c''], w_unavailability = unavail 3\<rparr>]\<rparr>]\<rparr>) \<and>
   (\<exists>mc. map_of (machines (master_down\<lparr>
       machines := [(''a'', machine_in ''a'' UP None []),
                    (''b'', machine_in ''b'' DOWN (Some (unavail 1)) []),
                    (''c'', machine_in ''c'' DRAINING (Some (unavail 3)) [])],
       schedules := [\<lparr>windows = [\<lparr>machine_ids = [''b''], w_unavailability = unavail 1\<rparr>,
                                  \<lparr>machine_ids = [''b'', ''c''], w_unavailability = unavail 3\<rparr>]\<rparr>]\<rparr>)) ''a'' = Some mc
       \<and> mode (info mc) = UP \<and> unavailability (info mc) = None)"
proof -
  let ?m' = "master_down\<lparr>
       machines := [(''a'', machine_in ''a'' UP None []),
                    (''b'', machine_in ''b'' DOWN (Some (unavail 1)) []),
                    (''c'', machine_in ''c'' DRAINING (Some (unavail 3)) [])],
       schedules := [\<lparr>windows = [\<lparr>machine_ids = [''b''], w_unavailability = unavail 1\<rparr>,
                                  \<lparr>machine_ids = [''b'', ''c''], w_unavailability = unavail 3\<rparr>]\<rparr>]\<rparr>"
  have run: "machineUp ext0 (post ''a'') True master_down = Inr (OK, ?m')"
    by (simp add: machineUp_def machineUp_continue_def ext0_def post_def master_down_def
          master0_def machine_in_def unavail_def machine_at_def reactivate_def modify_machine_def
          set_mode_def set_unavailability_def DeleteSubrange_def Let_def)
  have p1: "json_parse_array ext0 (body (post ''a'')) = Inr ''a''"
    by (simp add: ext0_def post_def)
  have p2: "protobuf_parse_machine_ids ext0 ''a'' = Inr [''a'']"
    by (simp add: ext0_def)
  from C5_machineUp_prunes_schedules [OF run p1 p2] run show ?thesis
    by simp
qed

section \<open>The schedule update is a diff\<close>

lemma fold_update_keys:
  "fst ` set (fold (\<lambda>i acc. AList.update i u acc) ids acc) = set ids \<union> fst ` set acc"
  by (induction ids arbitrary: acc) (auto simp: dom_update)

lemma updated_of_keys_aux:
  "fst ` set (fold (\<lambda>w acc. fold (\<lambda>i acc. AList.update i (w_unavailability w) acc) (machine_ids w) acc) ws acc)
   = (\<Union>w\<in>set ws. set (machine_ids w)) \<union> fst ` set acc"
  by (induction ws arbitrary: acc) (auto simp: fold_update_keys)

lemma updated_of_None: "map_of (updated_of schedule) i = None \<longleftrightarrow> i \<notin> named schedule"
  by (simp add: map_of_eq_None_iff updated_of_def updated_of_keys_aux named_def)

lemma update_known_machines:
  "map_of (machines (update_known upd i m)) =
   (map_of (machines m))(i \<mapsto>
      (case map_of upd i of
         Some u \<Rightarrow> set_unavailability (Some u) (machine_at (machines m) i)
       | None \<Rightarrow> set_unavailability None (set_mode UP (machine_at (machines m) i))))"
  by (simp add: update_known_def updateUnavailability_def map_of_modify_machine
        machine_at_modify_machine split: option.splits)

lemma fold_update_known_other:
  "i \<notin> set ks \<Longrightarrow> map_of (machines (fold (update_known upd) ks m)) i = map_of (machines m) i"
  by (induction ks arbitrary: m) (auto simp: update_known_machines)

lemma fold_update_known_up:
  "i \<in> set ks \<Longrightarrow> map_of upd i = None \<Longrightarrow> is_up (fold (update_known upd) ks m) i"
proof (induction ks arbitrary: m rule: rev_induct)
  case Nil
  then show ?case by simp
next
  case (snoc x xs)
  show ?case
  proof (cases "i = x")
    case True
    with snoc.prems show ?thesis
      by (simp add: is_up_def update_known_machines set_unavailability_def set_mode_def)
  next
    case False
    with snoc have "is_up (fold (update_known upd) xs m) i" by simp
    with False show ?thesis
      by (simp add: is_up_def update_known_machines)
  qed
qed

lemma save_machine_machines:
  "map_of (machines (save_machine u i m)) =
   (map_of (machines m))(i \<mapsto>
      (machine_at (machines m) i)\<lparr>info := \<lparr>mi_id = i, mode = DRAINING, unavailability = Some u\<rparr>\<rparr>)"
  by (simp add: save_machine_def updateUnavailability_def map_of_modify_machine
        machine_at_modify_machine set_unavailability_def)

lemma fold_save_machine_other:
  "i \<notin> set ids \<Longrightarrow> map_of (machines (fold (save_machine u) ids m)) i = map_of (machines m) i"
  by (induction ids arbitrary: m) (auto simp: save_machine_machines)

lemma fold_save_machine_draining:
  "i \<in> set ids \<Longrightarrow> is_draining (fold (save_machine u) ids m) i u"
proof (induction ids arbitrary: m rule: rev_induct)
  case Nil
  then show ?case by simp
next
  case (snoc x xs)
  show ?case
  proof (cases "i = x")
    case True
    then show ?thesis by (simp add: is_draining_def save_machine_machines)
  next
    case False
    with snoc have "is_draining (fold (save_machine u) xs m) i u" by simp
    with False show ?thesis by (simp add: is_draining_def save_machine_machines)
  qed
qed

lemma save_windows_other:
  "i \<notin> (\<Union>w\<in>set ws. set (machine_ids w)) \<Longrightarrow>
   map_of (machines (save_windows ws m)) i = map_of (machines m) i"
  unfolding save_windows_def
  by (induction ws arbitrary: m) (auto simp: fold_save_machine_other)

lemma save_windows_draining:
  "i \<in> (\<Union>w\<in>set ws. set (machine_ids w)) \<Longrightarrow>
   \<exists>w\<in>set ws. i \<in> set (machine_ids w) \<and> is_draining (save_windows ws m) i (w_unavailability w)"
proof (induction ws arbitrary: m rule: rev_induct)
  case Nil
  then show ?case by simp
next
  case (snoc w ws)
  let ?m1 = "save_windows ws m"
  have unf: "save_windows (ws @ [w]) m = fold (save_machine (w_unavailability w)) (machine_ids w) ?m1"
    by (simp add: save_windows_def)
  show ?case
  proof (cases "i \<in> set (machine_ids w)")
    case True
    then show ?thesis unfolding unf using fold_save_machine_draining by auto
  next
    case False
    with snoc.prems have "i \<in> (\<Union>w\<in>set ws. set (machine_ids w))" by auto
    from snoc.IH [OF this, of m] obtain w' where
      w': "w' \<in> set ws" "i \<in> set (machine_ids w')" "is_draining ?m1 i (w_unavailability w')"
      by blast
    from False w'(3) have "is_draining (save_windows (ws @ [w]) m) i (w_unavailability w')"
      unfolding unf by (simp add: is_draining_def fold_save_machine_other)
    with w' show ?thesis by auto
  qed
qed

lemma maintenanceSchedule_OK:
  assumes "maintenanceSchedule ext request result m = Inr (OK, m')"
    and "http_method request = ''POST''"
    and "json_parse_object ext (body request) = Inr js"
    and "protobuf_parse_schedule ext js = Inr schedule"
  shows "validate_schedule ext schedule (machines m) = None \<and> result \<and>
         m' = (save_windows (windows schedule)
                 (fold (update_known (updated_of schedule)) (map fst (machines m)) m))
              \<lparr>schedules := [schedule]\<rparr>"
  using assms
  by (auto simp: maintenanceSchedule_def maintenanceSchedule_continue_def Let_def
           split: if_splits option.splits)


lemma save_windows_last:
  "i \<in> (\<Union>w\<in>set ws. set (machine_ids w)) \<Longrightarrow>
   is_draining (save_windows ws m) i
     (w_unavailability (last (filter (\<lambda>w. i \<in> set (machine_ids w)) ws)))"
proof (induction ws arbitrary: m rule: rev_induct)
  case Nil
  then show ?case by simp
next
  case (snoc w ws)
  let ?m1 = "save_windows ws m"
  have unf: "save_windows (ws @ [w]) m = fold (save_machine (w_unavailability w)) (machine_ids w) ?m1"
    by (simp add: save_windows_def)
  show ?case
  proof (cases "i \<in> set (machine_ids w)")
    case True
    then have "last (filter (\<lambda>w. i \<in> set (machine_ids w)) (ws @ [w])) = w" by simp
    with True show ?thesis unfolding unf by (simp add: fold_save_machine_draining)
  next
    case False
    with snoc.prems have n: "i \<in> (\<Union>w\<in>set ws. set (machine_ids w))" by auto
    from False have l: "filter (\<lambda>w. i \<in> set (machine_ids w)) (ws @ [w]) =
                        filter (\<lambda>w. i \<in> set (machine_ids w)) ws" by simp
    from snoc.IH [OF n, of m] False show ?thesis
      unfolding unf l by (simp add: is_draining_def fold_save_machine_other)
  qed
qed

text \<open>
  Claim C2, amended. After a schedule update that is answered \<open>OK\<close> (the registrar accepted
  it), every machine named by the new schedule is stored in \<open>DRAINING\<close> mode with the
  unavailability of the last window of the schedule that names it: of "that window" when one
  window only names the machine, or when the windows naming it agree. Every machine known
  before and not named by the new schedule is stored in \<open>UP\<close> mode with no unavailability, and
  the stored schedules are the new schedule alone.
\<close>

theorem C2_schedule_update_is_a_diff:
  assumes "maintenanceSchedule ext request result m = Inr (OK, m')"
    and "http_method request = ''POST''"
    and "json_parse_object ext (body request) = Inr js"
    and "protobuf_parse_schedule ext js = Inr schedule"
  shows "(\<forall>i\<in>named schedule.
            is_draining m' i (w_unavailability (last_naming schedule i))) \<and>
         (\<forall>i\<in>named schedule. \<exists>w\<in>set (windows schedule).
            i \<in> set (machine_ids w) \<and> is_draining m' i (w_unavailability w)) \<and>
         (\<forall>w\<in>set (windows schedule). \<forall>i\<in>set (machine_ids w).
            (\<forall>w'\<in>set (windows schedule).
               i \<in> set (machine_ids w') \<longrightarrow> w_unavailability w' = w_unavailability w) \<longrightarrow>
            is_draining m' i (w_unavailability w)) \<and>
         (\<forall>i. map_of (machines m) i \<noteq> None \<and> i \<notin> named schedule \<longrightarrow> is_up m' i) \<and>
         schedules m' = [schedule]"
proof -
  let ?m1 = "fold (update_known (updated_of schedule)) (map fst (machines m)) m"
  from maintenanceSchedule_OK [OF assms]
  have m': "m' = (save_windows (windows schedule) ?m1)\<lparr>schedules := [schedule]\<rparr>"
    by simp
  have l: "\<forall>i\<in>named schedule. is_draining m' i (w_unavailability (last_naming schedule i))"
  proof
    fix i assume "i \<in> named schedule"
    then have "i \<in> (\<Union>w\<in>set (windows schedule). set (machine_ids w))" by (simp add: named_def)
    from save_windows_last [OF this, of ?m1]
    show "is_draining m' i (w_unavailability (last_naming schedule i))"
      by (simp add: m' is_draining_def last_naming_def)
  qed
  have a: "\<forall>i\<in>named schedule. \<exists>w\<in>set (windows schedule).
            i \<in> set (machine_ids w) \<and> is_draining m' i (w_unavailability w)"
  proof
    fix i assume "i \<in> named schedule"
    then have "i \<in> (\<Union>w\<in>set (windows schedule). set (machine_ids w))" by (simp add: named_def)
    from save_windows_draining [OF this, of ?m1]
    show "\<exists>w\<in>set (windows schedule). i \<in> set (machine_ids w) \<and> is_draining m' i (w_unavailability w)"
      by (simp add: m' is_draining_def)
  qed
  have b: "\<forall>w\<in>set (windows schedule). \<forall>i\<in>set (machine_ids w).
            (\<forall>w'\<in>set (windows schedule).
               i \<in> set (machine_ids w') \<longrightarrow> w_unavailability w' = w_unavailability w) \<longrightarrow>
            is_draining m' i (w_unavailability w)"
  proof (intro ballI impI)
    fix w i
    assume w: "w \<in> set (windows schedule)" and i: "i \<in> set (machine_ids w)"
      and agree: "\<forall>w'\<in>set (windows schedule).
               i \<in> set (machine_ids w') \<longrightarrow> w_unavailability w' = w_unavailability w"
    from w i have "i \<in> named schedule" by (auto simp: named_def)
    with a obtain w' where "w' \<in> set (windows schedule)" "i \<in> set (machine_ids w')"
      "is_draining m' i (w_unavailability w')" by blast
    with agree have "w_unavailability w' = w_unavailability w" by blast
    with \<open>is_draining m' i (w_unavailability w')\<close> show "is_draining m' i (w_unavailability w)" by simp
  qed
  have c: "\<forall>i. map_of (machines m) i \<noteq> None \<and> i \<notin> named schedule \<longrightarrow> is_up m' i"
  proof (intro allI impI)
    fix i assume h: "map_of (machines m) i \<noteq> None \<and> i \<notin> named schedule"
    then have k: "i \<in> set (map fst (machines m))"
      by (simp add: map_of_eq_None_iff)
    from h have u: "map_of (updated_of schedule) i = None" by (simp add: updated_of_None)
    from fold_update_known_up [OF k u] have "is_up ?m1 i" .
    moreover from h have "i \<notin> (\<Union>w\<in>set (windows schedule). set (machine_ids w))"
      by (simp add: named_def)
    ultimately show "is_up m' i"
      by (simp add: m' is_up_def save_windows_other)
  qed
  have d: "schedules m' = [schedule]" by (simp add: m')
  from l a b c d show ?thesis by (intro conjI)
qed

text \<open>
  The claim as stated fails where two windows name one machine: with the windows \<open>a, b\<close> at 10
  and \<open>b\<close> at 20, machine \<open>b\<close> is named by the first window and is stored with the
  unavailability of the second.
\<close>

theorem C2_schedule_update_is_a_diff_counterexample:
  "protobuf_parse_schedule ext_overlapping ''ab'' = Inr overlapping \<and>
   maintenanceSchedule ext_overlapping (post ''ab'') True master0 = Inr (OK, master_overlapping) \<and>
   \<lparr>machine_ids = [''a'', ''b''], w_unavailability = unavail 10\<rparr> \<in> set (windows overlapping) \<and>
   ''b'' \<in> set (machine_ids \<lparr>machine_ids = [''a'', ''b''], w_unavailability = unavail 10\<rparr>) \<and>
   \<not> is_draining master_overlapping ''b''
       (w_unavailability \<lparr>machine_ids = [''a'', ''b''], w_unavailability = unavail 10\<rparr>) \<and>
   is_draining master_overlapping ''b'' (unavail 20)"
  by (simp add: maintenanceSchedule_def maintenanceSchedule_continue_def ext_overlapping_def
        ext0_def post_def overlapping_def master_overlapping_def master0_def machine_in_def
        unavail_def machine_at_def modify_machine_def set_mode_def set_unavailability_def Let_def
        names_no_DOWN_def updated_of_def update_known_def save_windows_def save_machine_def
        updateUnavailability_def Machine_default_def is_draining_def)

lemma run_schedule_update:
  "maintenanceSchedule ext0 (post ''bc'') True master_draining = Inr (OK, master_rescheduled)"
  by (simp add: maintenanceSchedule_def maintenanceSchedule_continue_def ext0_def post_def
        master_draining_def master_rescheduled_def master0_def machine_in_def unavail_def
        machine_at_def modify_machine_def set_mode_def set_unavailability_def Let_def
        names_no_DOWN_def updated_of_def update_known_def save_windows_def save_machine_def
        updateUnavailability_def Machine_default_def)

theorem C2_schedule_update_is_a_diff_witness:
  "maintenanceSchedule ext0 (post ''bc'') True master_draining = Inr (OK, master_rescheduled) \<and>
   is_up master_rescheduled ''a'' \<and>
   is_draining master_rescheduled ''b'' (unavail 7) \<and>
   is_draining master_rescheduled ''c'' (unavail 7) \<and>
   schedules master_rescheduled =
     [\<lparr>windows = [\<lparr>machine_ids = [''b'', ''c''], w_unavailability = unavail 7\<rparr>]\<rparr>]"
proof -
  let ?s = "\<lparr>windows = [\<lparr>machine_ids = [''b'', ''c''], w_unavailability = unavail 7\<rparr>]\<rparr>"
  have p0: "http_method (post ''bc'') = ''POST''" by (simp add: post_def)
  have p1: "json_parse_object ext0 (body (post ''bc'')) = Inr ''bc''"
    by (simp add: ext0_def post_def)
  have p2: "protobuf_parse_schedule ext0 ''bc'' = Inr ?s"
    by (simp add: ext0_def unavail_def)
  have known: "map_of (machines master_draining) ''a'' \<noteq> None \<and> ''a'' \<notin> named ?s"
    by (simp add: master_draining_def named_def)
  have nb: "''b'' \<in> named ?s" and nc: "''c'' \<in> named ?s" by (simp_all add: named_def)
  have lb: "w_unavailability (last_naming ?s ''b'') = unavail 7"
    and lc: "w_unavailability (last_naming ?s ''c'') = unavail 7"
    by (simp_all add: last_naming_def)
  note c2 = C2_schedule_update_is_a_diff [OF run_schedule_update p0 p1 p2]
  from c2 known have "is_up master_rescheduled ''a''" and "schedules master_rescheduled = [?s]"
    by blast+
  moreover from c2 nb have "is_draining master_rescheduled ''b'' (w_unavailability (last_naming ?s ''b''))"
    by blast
  moreover from c2 nc have "is_draining master_rescheduled ''c'' (w_unavailability (last_naming ?s ''c''))"
    by blast
  ultimately show ?thesis using run_schedule_update by (simp add: lb lc)
qed

section \<open>Machine down, and the transitions of the machine modes\<close>

lemma find_filter_other:
  "find (\<lambda>s. s_id s = sid) (filter (\<lambda>s. s_id s \<noteq> x) xs) =
   (if sid = x then None else find (\<lambda>s. s_id s = sid) xs)"
  by (induction xs) auto

lemma find_s_id: "find (\<lambda>s. s_id s = sid) xs = Some slave \<Longrightarrow> s_id slave = sid"
  by (induction xs) (auto split: if_splits)

lemma registered_get_id: "registered_get m sid = Some slave \<Longrightarrow> s_id slave = sid"
  unfolding registered_get_def by (rule find_s_id)

lemma shutdown_one_registered:
  "registered_get (shutdown_one slave m) sid =
   (if sid = s_id slave then None else registered_get m sid)"
  by (simp add: shutdown_one_def removeSlave_def send_def registered_get_def find_filter_other)

lemma shutdown_one_sent:
  "sent (shutdown_one slave m) = sent m @ [(s_pid slave, ShutdownMessage Machine_DOWN_message)]"
  by (simp add: shutdown_one_def removeSlave_def send_def)

lemma shutdown_one_machine:
  "machine_at (machines (shutdown_one slave m)) j =
   (if j = s_machineId slave \<and> map_of (machines m) j \<noteq> None
    then (machine_at (machines m) j)\<lparr>slaves := removeAll (s_id slave) (slaves (machine_at (machines m) j))\<rparr>
    else machine_at (machines m) j)"
  by (auto simp: shutdown_one_def removeSlave_def send_def machine_at_modify_machine)

lemma shutdown_one_known:
  "(map_of (machines (shutdown_one slave m)) j = None) = (map_of (machines m) j = None)"
  by (simp add: shutdown_one_def removeSlave_def send_def map_of_modify_machine)

lemma only_removals_refl: "only_removals m m"
  by (simp add: only_removals_def)

lemma only_removals_registered:
  "only_removals m m' \<Longrightarrow>
   registered_get m' sid = None \<or> registered_get m' sid = registered_get m sid"
  by (simp add: only_removals_def)

lemma only_removals_sent: "only_removals m m' \<Longrightarrow> x \<in> set (sent m) \<Longrightarrow> x \<in> set (sent m')"
  by (auto simp: only_removals_def)

lemma only_removals_slaves:
  "only_removals m m' \<Longrightarrow> sid \<in> set (slaves (machine_at (machines m) j)) \<Longrightarrow>
   sid \<in> set (slaves (machine_at (machines m') j)) \<or> shut_down m m' sid"
  by (simp add: only_removals_def)

lemma only_removals_known:
  "only_removals m m' \<Longrightarrow> (map_of (machines m') j = None) = (map_of (machines m) j = None)"
  by (simp add: only_removals_def)

lemma only_removals_mode:
  "only_removals m m' \<Longrightarrow>
   mode (info (machine_at (machines m') j)) = mode (info (machine_at (machines m) j))"
  by (simp add: only_removals_def)

lemma shut_down_mono:
  assumes "shut_down m m1 sid" and o: "only_removals m1 m2"
  shows "shut_down m m2 sid"
proof -
  from assms(1) obtain slave where
    u: "registered_get m1 sid = None" and g: "registered_get m sid = Some slave" and
    x: "(s_pid slave, ShutdownMessage Machine_DOWN_message) \<in> set (sent m1)"
    unfolding shut_down_def by blast
  from only_removals_registered [OF o, of sid] u have "registered_get m2 sid = None" by auto
  moreover from only_removals_sent [OF o x]
  have "(s_pid slave, ShutdownMessage Machine_DOWN_message) \<in> set (sent m2)" .
  ultimately show ?thesis using g unfolding shut_down_def by blast
qed

lemma shut_down_base:
  assumes "shut_down m1 m2 sid" and o: "only_removals m m1"
  shows "shut_down m m2 sid"
proof -
  from assms(1) obtain slave where
    u: "registered_get m2 sid = None" and g: "registered_get m1 sid = Some slave" and
    x: "(s_pid slave, ShutdownMessage Machine_DOWN_message) \<in> set (sent m2)"
    unfolding shut_down_def by blast
  from only_removals_registered [OF o, of sid] g have "registered_get m sid = Some slave" by auto
  with u x show ?thesis unfolding shut_down_def by blast
qed

lemma only_removals_trans:
  assumes a: "only_removals m m1" and b: "only_removals m1 m2"
  shows "only_removals m m2"
proof -
  have r: "\<forall>sid. registered_get m2 sid = None \<or> registered_get m2 sid = registered_get m sid"
  proof
    fix sid
    from only_removals_registered [OF a, of sid] only_removals_registered [OF b, of sid]
    show "registered_get m2 sid = None \<or> registered_get m2 sid = registered_get m sid"
      by auto
  qed
  have s: "set (sent m) \<subseteq> set (sent m2)"
    using only_removals_sent [OF a] only_removals_sent [OF b] by blast
  have l: "\<forall>j. \<forall>sid\<in>set (slaves (machine_at (machines m) j)).
          sid \<in> set (slaves (machine_at (machines m2) j)) \<or> shut_down m m2 sid"
  proof (intro allI ballI)
    fix j sid assume "sid \<in> set (slaves (machine_at (machines m) j))"
    with a have "sid \<in> set (slaves (machine_at (machines m1) j)) \<or> shut_down m m1 sid"
      by (rule only_removals_slaves)
    then show "sid \<in> set (slaves (machine_at (machines m2) j)) \<or> shut_down m m2 sid"
    proof
      assume "sid \<in> set (slaves (machine_at (machines m1) j))"
      with b have "sid \<in> set (slaves (machine_at (machines m2) j)) \<or> shut_down m1 m2 sid"
        by (rule only_removals_slaves)
      with a show ?thesis using shut_down_base by blast
    next
      assume "shut_down m m1 sid"
      with b show ?thesis using shut_down_mono by blast
    qed
  qed
  have k: "\<forall>j. (map_of (machines m2) j = None) = (map_of (machines m) j = None)"
    by (simp add: only_removals_known [OF a] only_removals_known [OF b])
  have md: "\<forall>j. mode (info (machine_at (machines m2) j)) = mode (info (machine_at (machines m) j))"
    by (simp add: only_removals_mode [OF a] only_removals_mode [OF b])
  from r s l k md show ?thesis unfolding only_removals_def by (intro conjI)
qed

lemma shutdown_one_shut_down:
  "registered_get m sid = Some slave \<Longrightarrow> shut_down m (shutdown_one slave m) sid"
  by (frule registered_get_id) (simp add: shut_down_def shutdown_one_registered shutdown_one_sent)

lemma shutdown_one_only_removals:
  assumes "registered_get m sid = Some slave"
  shows "only_removals m (shutdown_one slave m)"
proof -
  from assms have i: "s_id slave = sid" by (rule registered_get_id)
  have l: "\<forall>j. \<forall>sid'\<in>set (slaves (machine_at (machines m) j)).
          sid' \<in> set (slaves (machine_at (machines (shutdown_one slave m)) j)) \<or>
          shut_down m (shutdown_one slave m) sid'"
  proof (intro allI ballI)
    fix j sid' assume h: "sid' \<in> set (slaves (machine_at (machines m) j))"
    show "sid' \<in> set (slaves (machine_at (machines (shutdown_one slave m)) j)) \<or>
          shut_down m (shutdown_one slave m) sid'"
    proof (cases "sid' = sid")
      case True
      with assms show ?thesis by (simp add: shutdown_one_shut_down)
    next
      case False
      with h i show ?thesis by (auto simp: shutdown_one_machine)
    qed
  qed
  have r: "\<forall>s. registered_get (shutdown_one slave m) s = None \<or>
               registered_get (shutdown_one slave m) s = registered_get m s"
    by (simp add: shutdown_one_registered)
  have s: "set (sent m) \<subseteq> set (sent (shutdown_one slave m))"
    by (auto simp: shutdown_one_sent)
  have k: "\<forall>j. (map_of (machines (shutdown_one slave m)) j = None) = (map_of (machines m) j = None)"
    by (simp add: shutdown_one_known)
  have md: "\<forall>j. mode (info (machine_at (machines (shutdown_one slave m)) j)) =
                mode (info (machine_at (machines m) j))"
    by (simp add: shutdown_one_machine)
  from r s l k md show ?thesis
    unfolding only_removals_def by (intro conjI)
qed

lemma shutdown_slaves_step:
  "shutdown_slaves (sid # sids) m =
     (case registered_get m sid of
        None \<Rightarrow> Inl (CHECK_failed ''slave'')
      | Some slave \<Rightarrow> shutdown_slaves sids (shutdown_one slave m))"
  by (simp add: shutdown_one_def split: option.splits)

lemma shutdown_slaves_ok:
  "shutdown_slaves sids m = Inr m' \<Longrightarrow>
   only_removals m m' \<and> (\<forall>sid\<in>set sids. shut_down m m' sid)"
proof (induction sids arbitrary: m)
  case Nil
  then show ?case by (simp add: only_removals_refl)
next
  case (Cons sid sids)
  from Cons.prems obtain slave where
    g: "registered_get m sid = Some slave" and
    r: "shutdown_slaves sids (shutdown_one slave m) = Inr m'"
    by (auto simp: shutdown_slaves_step simp del: shutdown_slaves.simps split: option.splits)
  let ?m1 = "shutdown_one slave m"
  from Cons.IH [OF r] have o1: "only_removals ?m1 m'" and d1: "\<forall>s\<in>set sids. shut_down ?m1 m' s"
    by simp_all
  from g have o0: "only_removals m ?m1" by (rule shutdown_one_only_removals)
  from o0 o1 have o: "only_removals m m'" by (rule only_removals_trans)
  from g have "shut_down m ?m1 sid" by (rule shutdown_one_shut_down)
  from this o1 have h: "shut_down m m' sid" by (rule shut_down_mono)
  from d1 o0 have "\<forall>s\<in>set sids. shut_down m m' s" using shut_down_base by blast
  with o h show ?case by simp
qed

lemma shutdown_machines_ok:
  "shutdown_machines ids m = Inr m' \<Longrightarrow>
   only_removals m m' \<and>
   (\<forall>i\<in>set ids. \<forall>sid\<in>set (slaves (machine_at (machines m) i)). shut_down m m' sid)"
proof (induction ids arbitrary: m)
  case Nil
  then show ?case by (simp add: only_removals_refl)
next
  case (Cons i ids)
  show ?case
  proof (cases "map_of (machines m) i = None")
    case True
    with Cons.prems have r: "shutdown_machines ids m = Inr m'" by simp
    from True have "slaves (machine_at (machines m) i) = []"
      by (simp add: machine_at_def Machine_default_def)
    with Cons.IH [OF r] show ?thesis by simp
  next
    case False
    with Cons.prems obtain m1 where
      s: "shutdown_slaves (slaves (machine_at (machines m) i)) m = Inr m1" and
      r: "shutdown_machines ids m1 = Inr m'"
      by (auto split: sum.splits)
    from shutdown_slaves_ok [OF s] have o0: "only_removals m m1"
      and d0: "\<forall>sid\<in>set (slaves (machine_at (machines m) i)). shut_down m m1 sid" by simp_all
    from Cons.IH [OF r] have o1: "only_removals m1 m'"
      and d1: "\<forall>j\<in>set ids. \<forall>sid\<in>set (slaves (machine_at (machines m1) j)). shut_down m1 m' sid"
      by simp_all
    from o0 o1 have o: "only_removals m m'" by (rule only_removals_trans)
    have hd: "\<forall>sid\<in>set (slaves (machine_at (machines m) i)). shut_down m m' sid"
      using d0 o1 shut_down_mono by blast
    have tl: "\<forall>j\<in>set ids. \<forall>sid\<in>set (slaves (machine_at (machines m) j)). shut_down m m' sid"
    proof (intro ballI)
      fix j sid assume j: "j \<in> set ids" and sid: "sid \<in> set (slaves (machine_at (machines m) j))"
      from o0 sid have "sid \<in> set (slaves (machine_at (machines m1) j)) \<or> shut_down m m1 sid"
        by (rule only_removals_slaves)
      then show "shut_down m m' sid"
      proof
        assume "sid \<in> set (slaves (machine_at (machines m1) j))"
        with d1 j have "shut_down m1 m' sid" by blast
        from this o0 show ?thesis by (rule shut_down_base)
      next
        assume "shut_down m m1 sid"
        from this o1 show ?thesis by (rule shut_down_mono)
      qed
    qed
    from o hd tl show ?thesis by simp
  qed
qed

lemma deactivate_machines:
  "map_of (machines (deactivate i m)) = (map_of (machines m))(i \<mapsto> set_mode DOWN (machine_at (machines m) i))"
  by (simp add: deactivate_def map_of_modify_machine)

lemma deactivate_rest:
  "slaves_registered (deactivate i m) = slaves_registered m \<and> sent (deactivate i m) = sent m"
  by (simp add: deactivate_def)

lemma fold_deactivate_rest:
  "slaves_registered (fold deactivate ids m) = slaves_registered m \<and>
   sent (fold deactivate ids m) = sent m"
  by (induction ids arbitrary: m) (simp_all add: deactivate_rest)

lemma fold_deactivate_other:
  "i \<notin> set ids \<Longrightarrow> map_of (machines (fold deactivate ids m)) i = map_of (machines m) i"
  by (induction ids arbitrary: m) (auto simp: deactivate_machines)

lemma fold_deactivate_down:
  "i \<in> set ids \<Longrightarrow>
   \<exists>mc. map_of (machines (fold deactivate ids m)) i = Some mc \<and> mode (info mc) = DOWN"
proof (induction ids arbitrary: m rule: rev_induct)
  case Nil
  then show ?case by simp
next
  case (snoc x xs)
  show ?case
  proof (cases "i = x")
    case True
    then show ?thesis by (simp add: deactivate_machines set_mode_def)
  next
    case False
    with snoc have "\<exists>mc. map_of (machines (fold deactivate xs m)) i = Some mc \<and> mode (info mc) = DOWN"
      by simp
    with False show ?thesis by (simp add: deactivate_machines)
  qed
qed

lemma check_draining_None:
  "check_draining ext ids ms = None \<Longrightarrow> i \<in> set ids \<Longrightarrow>
   map_of ms i \<noteq> None \<and> mode (info (machine_at ms i)) = DRAINING"
  by (induction ids) (auto split: if_splits)

lemma check_draining_BadRequest:
  "check_draining ext ids ms = Some r \<Longrightarrow> \<exists>msg. r = BadRequest msg"
  by (induction ids) (auto split: if_splits)

lemma machineDown_OK:
  assumes "machineDown ext request result m = Inr (OK, m')"
    and "json_parse_array ext (body request) = Inr j"
    and "protobuf_parse_machine_ids ext j = Inr ids"
  shows "check_draining ext ids (machines m) = None \<and> result \<and>
         (\<exists>m1. shutdown_machines ids m = Inr m1 \<and> m' = fold deactivate ids m1)"
proof -
  have nb: "\<And>r. check_draining ext ids (machines m) = Some r \<Longrightarrow> r \<noteq> OK"
    using check_draining_BadRequest by blast
  from assms nb show ?thesis
    by (auto simp: machineDown_def machineDown_continue_def
             split: if_splits option.splits sum.splits)
qed

text \<open>
  Claim C4. After a machine-down request that is answered \<open>OK\<close> (the registrar accepted it),
  every agent that was in the agent set of a targeted machine has been sent the shutdown
  message and is no longer registered (the removal follows the send at once: nothing between
  them looks at an answer of the agent), and every targeted machine is stored in \<open>DOWN\<close> mode.
\<close>

theorem C4_machineDown_removes_agents:
  assumes "machineDown ext request result m = Inr (OK, m')"
    and "json_parse_array ext (body request) = Inr j"
    and "protobuf_parse_machine_ids ext j = Inr ids"
  shows "(\<forall>i\<in>set ids. \<forall>sid\<in>set (slaves (machine_at (machines m) i)). shut_down m m' sid) \<and>
         (\<forall>i\<in>set ids. \<exists>mc. map_of (machines m') i = Some mc \<and> mode (info mc) = DOWN)"
proof -
  from machineDown_OK [OF assms] obtain m1 where
    s: "shutdown_machines ids m = Inr m1" and m': "m' = fold deactivate ids m1"
    by blast
  from shutdown_machines_ok [OF s]
  have d: "\<forall>i\<in>set ids. \<forall>sid\<in>set (slaves (machine_at (machines m) i)). shut_down m m1 sid"
    by simp
  have "\<And>sid. shut_down m m1 sid \<Longrightarrow> shut_down m m' sid"
    by (simp add: shut_down_def m' registered_get_def fold_deactivate_rest)
  with d have a: "\<forall>i\<in>set ids. \<forall>sid\<in>set (slaves (machine_at (machines m) i)). shut_down m m' sid"
    by blast
  have b: "\<forall>i\<in>set ids. \<exists>mc. map_of (machines m') i = Some mc \<and> mode (info mc) = DOWN"
    using fold_deactivate_down by (simp add: m')
  from a b show ?thesis by (intro conjI)
qed

theorem C4_machineDown_removes_agents_witness:
  "machineDown ext0 (post ''a'') True master_agents = Inr (OK, master_agents_down) \<and>
   shut_down master_agents master_agents_down ''s1'' \<and>
   mode_of master_agents_down ''a'' = DOWN"
proof -
  have run: "machineDown ext0 (post ''a'') True master_agents = Inr (OK, master_agents_down)"
    by (simp add: machineDown_def machineDown_continue_def ext0_def post_def
          master_agents_def master_agents_down_def master0_def machine_in_def unavail_def
          machine_at_def modify_machine_def set_mode_def deactivate_def removeSlave_def send_def
          registered_get_def)
  have p1: "json_parse_array ext0 (body (post ''a'')) = Inr ''a''"
    by (simp add: ext0_def post_def)
  have p2: "protobuf_parse_machine_ids ext0 ''a'' = Inr [''a'']"
    by (simp add: ext0_def)
  have loc: "''s1'' \<in> set (slaves (machine_at (machines master_agents) ''a''))"
    by (simp add: master_agents_def machine_at_def machine_in_def)
  from C4_machineDown_removes_agents [OF run p1 p2] loc
  have "shut_down master_agents master_agents_down ''s1''" by simp
  moreover have "mode_of master_agents_down ''a'' = DOWN"
    by (simp add: mode_of_def master_agents_down_def machine_at_def machine_in_def)
  ultimately show ?thesis using run by simp
qed

lemma check_draining_Some:
  "\<exists>i\<in>set ids. map_of ms i = None \<or> mode (info (machine_at ms i)) \<noteq> DRAINING \<Longrightarrow>
   \<exists>msg. check_draining ext ids ms = Some (BadRequest msg)"
  by (induction ids) auto

lemma check_down_Some:
  "\<exists>i\<in>set ids. map_of ms i = None \<or> mode (info (machine_at ms i)) \<noteq> DOWN \<Longrightarrow>
   \<exists>msg. check_down ext ids ms = Some (BadRequest msg)"
  by (induction ids) auto

lemma machineDown_rejects:
  assumes "json_parse_array ext (body request) = Inr j"
    and "protobuf_parse_machine_ids ext j = Inr ids"
    and "\<exists>i\<in>set ids. map_of (machines m) i = None \<or> mode_of m i \<noteq> DRAINING"
  shows "\<exists>msg. machineDown ext request result m = Inr (BadRequest msg, m)"
proof -
  from assms(3) obtain msg where "check_draining ext ids (machines m) = Some (BadRequest msg)"
    unfolding mode_of_def using check_draining_Some by blast
  with assms(1,2) show ?thesis
    by (simp add: machineDown_def split: option.splits)
qed

lemma machineUp_rejects:
  assumes "json_parse_array ext (body request) = Inr j"
    and "protobuf_parse_machine_ids ext j = Inr ids"
    and "\<exists>i\<in>set ids. map_of (machines m) i = None \<or> mode_of m i \<noteq> DOWN"
  shows "\<exists>msg. machineUp ext request result m = Inr (BadRequest msg, m)"
proof -
  from assms(3) obtain msg where "check_down ext ids (machines m) = Some (BadRequest msg)"
    unfolding mode_of_def using check_down_Some by blast
  with assms(1,2) show ?thesis
    by (simp add: machineUp_def split: option.splits)
qed

lemma machineDown_cases:
  assumes "machineDown ext request result m = Inr (resp, m')"
  shows "m' = m \<or> (\<exists>ids m1. check_draining ext ids (machines m) = None \<and>
                      shutdown_machines ids m = Inr m1 \<and> m' = fold deactivate ids m1)"
  using assms
  by (auto simp: machineDown_def machineDown_continue_def
           split: if_splits option.splits sum.splits)

lemma machineUp_cases:
  assumes "machineUp ext request result m = Inr (resp, m')"
  shows "m' = m \<or> (\<exists>ids. check_down ext ids (machines m) = None \<and>
            m' = (fold reactivate ids m)\<lparr>schedules := prune_schedules ids (schedules m)\<rparr>)"
  using assms
  by (auto simp: machineUp_def machineUp_continue_def fold_reactivate_schedules
           split: if_splits option.splits sum.splits)

lemma mode_of_eq: "map_of (machines m') i = map_of (machines m) i \<Longrightarrow> mode_of m' i = mode_of m i"
  by (simp add: mode_of_def machine_at_def)

lemma fold_reactivate_other:
  "i \<notin> set ids \<Longrightarrow> map_of (machines (fold reactivate ids m)) i = map_of (machines m) i"
  by (induction ids arbitrary: m) (auto simp: reactivate_machines)

lemma machineDown_transition:
  assumes "machineDown ext request result m = Inr (resp, m')"
  shows "mode_of m' i = mode_of m i \<or> (mode_of m i = DRAINING \<and> mode_of m' i = DOWN)"
proof -
  from machineDown_cases [OF assms] show ?thesis
  proof
    assume "m' = m" then show ?thesis by simp
  next
    assume "\<exists>ids m1. check_draining ext ids (machines m) = None \<and>
                      shutdown_machines ids m = Inr m1 \<and> m' = fold deactivate ids m1"
    then obtain ids m1 where c: "check_draining ext ids (machines m) = None"
      and s: "shutdown_machines ids m = Inr m1" and m': "m' = fold deactivate ids m1" by blast
    from shutdown_machines_ok [OF s] have o: "only_removals m m1" by simp
    have keep: "mode_of m1 i = mode_of m i"
      unfolding mode_of_def by (rule only_removals_mode [OF o])
    show ?thesis
    proof (cases "i \<in> set ids")
      case True
      from check_draining_None [OF c True] have "mode_of m i = DRAINING" by (simp add: mode_of_def)
      moreover from fold_deactivate_down [OF True, of m1] have "mode_of m' i = DOWN"
        by (auto simp: mode_of_def machine_at_def m')
      ultimately show ?thesis by simp
    next
      case False
      from fold_deactivate_other [OF False, of m1] have "mode_of m' i = mode_of m1 i"
        unfolding m' by (rule mode_of_eq)
      with keep show ?thesis by simp
    qed
  qed
qed

lemma machineUp_transition:
  assumes "machineUp ext request result m = Inr (resp, m')"
  shows "mode_of m' i = mode_of m i \<or> (mode_of m i = DOWN \<and> mode_of m' i = UP)"
proof -
  from machineUp_cases [OF assms] show ?thesis
  proof
    assume "m' = m" then show ?thesis by simp
  next
    assume "\<exists>ids. check_down ext ids (machines m) = None \<and>
            m' = (fold reactivate ids m)\<lparr>schedules := prune_schedules ids (schedules m)\<rparr>"
    then obtain ids where c: "check_down ext ids (machines m) = None"
      and m': "m' = (fold reactivate ids m)\<lparr>schedules := prune_schedules ids (schedules m)\<rparr>"
      by blast
    show ?thesis
    proof (cases "i \<in> set ids")
      case True
      from check_down_None [OF c True] have "mode_of m i = DOWN" by (simp add: mode_of_def)
      moreover from fold_reactivate_up [OF True, of m] have "mode_of m' i = UP"
        by (auto simp: mode_of_def machine_at_def m' is_up_def)
      ultimately show ?thesis by simp
    next
      case False
      from fold_reactivate_other [OF False, of m] have "mode_of m' i = mode_of m i"
        by (simp add: mode_of_def machine_at_def m')
      then show ?thesis by simp
    qed
  qed
qed

lemma machineDown_deferred_same:
  "machineDown_deferred ext request result m m = machineDown ext request result m"
  by (simp add: machineDown_deferred_def machineDown_def)

lemma machineUp_deferred_same:
  "machineUp_deferred ext request result m m = machineUp ext request result m"
  by (simp add: machineUp_deferred_def machineUp_def)

lemma maintenanceSchedule_deferred_same:
  "maintenanceSchedule_deferred ext request result m m = maintenanceSchedule ext request result m"
  by (simp add: maintenanceSchedule_deferred_def maintenanceSchedule_def)

lemma machineDown_deferred_rejects:
  assumes "json_parse_array ext (body request) = Inr j"
    and "protobuf_parse_machine_ids ext j = Inr ids"
    and "\<exists>i\<in>set ids. map_of (machines m) i = None \<or> mode_of m i \<noteq> DRAINING"
  shows "\<exists>msg. machineDown_deferred ext request result m later = Inr (BadRequest msg, m)"
proof -
  from assms(3) obtain msg where "check_draining ext ids (machines m) = Some (BadRequest msg)"
    unfolding mode_of_def using check_draining_Some by blast
  with assms(1,2) show ?thesis
    by (simp add: machineDown_deferred_def split: option.splits)
qed

lemma machineUp_deferred_rejects:
  assumes "json_parse_array ext (body request) = Inr j"
    and "protobuf_parse_machine_ids ext j = Inr ids"
    and "\<exists>i\<in>set ids. map_of (machines m) i = None \<or> mode_of m i \<noteq> DOWN"
  shows "\<exists>msg. machineUp_deferred ext request result m later = Inr (BadRequest msg, m)"
proof -
  from assms(3) obtain msg where "check_down ext ids (machines m) = Some (BadRequest msg)"
    unfolding mode_of_def using check_down_Some by blast
  with assms(1,2) show ?thesis
    by (simp add: machineUp_deferred_def split: option.splits)
qed

lemma check_down_rejection:
  "check_down ext ids ms = Some r \<Longrightarrow> \<exists>msg. r = BadRequest msg"
  by (induction ids) (auto split: if_splits)

lemma machineDown_deferred_OK:
  assumes "machineDown_deferred ext request result m later = Inr (OK, m')"
    and "json_parse_array ext (body request) = Inr j"
    and "protobuf_parse_machine_ids ext j = Inr ids"
  shows "check_draining ext ids (machines m) = None \<and>
         (\<exists>m1. shutdown_machines ids later = Inr m1 \<and> m' = fold deactivate ids m1)"
  using assms
  by (auto simp: machineDown_deferred_def machineDown_continue_def
           split: if_splits option.splits sum.splits dest: check_draining_BadRequest)

lemma machineUp_deferred_OK:
  assumes "machineUp_deferred ext request result m later = Inr (OK, m')"
    and "json_parse_array ext (body request) = Inr j"
    and "protobuf_parse_machine_ids ext j = Inr ids"
  shows "check_down ext ids (machines m) = None \<and>
         m' = (fold reactivate ids later)\<lparr>schedules := prune_schedules ids (schedules later)\<rparr>"
  using assms
  by (auto simp: machineUp_deferred_def machineUp_continue_def fold_reactivate_schedules Let_def
           split: if_splits option.splits sum.splits dest: check_down_rejection)

lemma machineDown_deferred_modes:
  assumes "machineDown_deferred ext request result m later = Inr (OK, m')"
    and "json_parse_array ext (body request) = Inr j"
    and "protobuf_parse_machine_ids ext j = Inr ids"
  shows "(i \<in> set ids \<longrightarrow> mode_of m i = DRAINING \<and> mode_of m' i = DOWN) \<and>
         (i \<notin> set ids \<longrightarrow> mode_of m' i = mode_of later i)"
proof -
  from machineDown_deferred_OK [OF assms] obtain m1 where
    c: "check_draining ext ids (machines m) = None"
    and s: "shutdown_machines ids later = Inr m1" and m': "m' = fold deactivate ids m1" by blast
  from shutdown_machines_ok [OF s] have o: "only_removals later m1" by simp
  have keep: "mode_of m1 i = mode_of later i"
    unfolding mode_of_def by (rule only_removals_mode [OF o])
  have a: "i \<in> set ids \<longrightarrow> mode_of m i = DRAINING \<and> mode_of m' i = DOWN"
  proof
    assume l: "i \<in> set ids"
    from check_draining_None [OF c l] have "mode_of m i = DRAINING" by (simp add: mode_of_def)
    moreover from fold_deactivate_down [OF l, of m1] have "mode_of m' i = DOWN"
      by (auto simp: mode_of_def machine_at_def m')
    ultimately show "mode_of m i = DRAINING \<and> mode_of m' i = DOWN" by simp
  qed
  have b: "i \<notin> set ids \<longrightarrow> mode_of m' i = mode_of later i"
  proof
    assume l: "i \<notin> set ids"
    from fold_deactivate_other [OF l, of m1] have "mode_of m' i = mode_of m1 i"
      unfolding m' by (rule mode_of_eq)
    with keep show "mode_of m' i = mode_of later i" by simp
  qed
  from a b show ?thesis by (intro conjI)
qed

lemma machineUp_deferred_modes:
  assumes "machineUp_deferred ext request result m later = Inr (OK, m')"
    and "json_parse_array ext (body request) = Inr j"
    and "protobuf_parse_machine_ids ext j = Inr ids"
  shows "(i \<in> set ids \<longrightarrow> mode_of m i = DOWN \<and> mode_of m' i = UP) \<and>
         (i \<notin> set ids \<longrightarrow> mode_of m' i = mode_of later i)"
proof -
  from machineUp_deferred_OK [OF assms] have
    c: "check_down ext ids (machines m) = None"
    and m': "m' = (fold reactivate ids later)\<lparr>schedules := prune_schedules ids (schedules later)\<rparr>"
    by simp_all
  have a: "i \<in> set ids \<longrightarrow> mode_of m i = DOWN \<and> mode_of m' i = UP"
  proof
    assume l: "i \<in> set ids"
    from check_down_None [OF c l] have "mode_of m i = DOWN" by (simp add: mode_of_def)
    moreover from fold_reactivate_up [OF l, of later] have "mode_of m' i = UP"
      by (auto simp: mode_of_def machine_at_def m' is_up_def)
    ultimately show "mode_of m i = DOWN \<and> mode_of m' i = UP" by simp
  qed
  have b: "i \<notin> set ids \<longrightarrow> mode_of m' i = mode_of later i"
  proof
    assume l: "i \<notin> set ids"
    from fold_reactivate_other [OF l, of later] show "mode_of m' i = mode_of later i"
      by (simp add: mode_of_def machine_at_def m')
  qed
  from a b show ?thesis by (intro conjI)
qed

lemma maintenanceSchedule_deferred_OK:
  assumes "maintenanceSchedule_deferred ext request result m later = Inr (OK, m')"
    and "http_method request = ''POST''"
    and "json_parse_object ext (body request) = Inr js"
    and "protobuf_parse_schedule ext js = Inr schedule"
  shows "m' = (save_windows (windows schedule)
                 (fold (update_known (updated_of schedule)) (map fst (machines later)) later))
              \<lparr>schedules := [schedule]\<rparr>"
  using assms
  by (auto simp: maintenanceSchedule_deferred_def maintenanceSchedule_continue_def Let_def
           split: if_splits option.splits)

lemma schedule_update_modes:
  assumes "m' = (save_windows (windows schedule)
                 (fold (update_known (updated_of schedule)) (map fst (machines later)) later))
              \<lparr>schedules := [schedule]\<rparr>"
  shows "(i \<in> named schedule \<longrightarrow> mode_of m' i = DRAINING) \<and>
         (i \<notin> named schedule \<and> map_of (machines later) i \<noteq> None \<longrightarrow> mode_of m' i = UP) \<and>
         (i \<notin> named schedule \<and> map_of (machines later) i = None \<longrightarrow> mode_of m' i = mode_of later i)"
proof -
  let ?m1 = "fold (update_known (updated_of schedule)) (map fst (machines later)) later"
  note m' = assms
  have a: "i \<in> named schedule \<longrightarrow> mode_of m' i = DRAINING"
  proof
    assume "i \<in> named schedule"
    then have n: "i \<in> (\<Union>w\<in>set (windows schedule). set (machine_ids w))" by (simp add: named_def)
    from save_windows_draining [OF this, of ?m1] show "mode_of m' i = DRAINING"
      by (auto simp: mode_of_def machine_at_def m' is_draining_def)
  qed
  have e: "i \<notin> named schedule \<Longrightarrow> map_of (machines m') i = map_of (machines ?m1) i"
    by (simp add: m' named_def save_windows_other)
  have b: "i \<notin> named schedule \<and> map_of (machines later) i \<noteq> None \<longrightarrow> mode_of m' i = UP"
  proof
    assume h: "i \<notin> named schedule \<and> map_of (machines later) i \<noteq> None"
    then have k: "i \<in> set (map fst (machines later))" by (simp add: map_of_eq_None_iff)
    from h have u: "map_of (updated_of schedule) i = None" by (simp add: updated_of_None)
    from fold_update_known_up [OF k u, of later] e h show "mode_of m' i = UP"
      by (auto simp: mode_of_def machine_at_def is_up_def)
  qed
  have c: "i \<notin> named schedule \<and> map_of (machines later) i = None \<longrightarrow>
           mode_of m' i = mode_of later i"
  proof
    assume h: "i \<notin> named schedule \<and> map_of (machines later) i = None"
    then have "i \<notin> set (map fst (machines later))" by (simp add: map_of_eq_None_iff)
    from fold_update_known_other [OF this] e h
    have "map_of (machines m') i = map_of (machines later) i" by simp
    then show "mode_of m' i = mode_of later i" by (rule mode_of_eq)
  qed
  from a b c show ?thesis by (intro conjI)
qed

text \<open>
  Claim C3, amended. A machine-down request that lists a machine which is unknown or not in
  \<open>DRAINING\<close> mode is answered \<open>BadRequest\<close> at once and leaves the master as it is; so is a
  machine-up request that lists a machine which is unknown or not in \<open>DOWN\<close> mode. A
  machine-down request answered \<open>OK\<close> found every machine it lists in \<open>DRAINING\<close> mode when
  it checked them and leaves them in \<open>DOWN\<close> mode; a machine-up request answered \<open>OK\<close> found
  them in \<open>DOWN\<close> mode and leaves them in \<open>UP\<close> mode; both leave every other machine in the
  mode it has when the continuation runs. So, when the continuation runs on the master that
  was checked, machine-down changes modes from \<open>DRAINING\<close> to \<open>DOWN\<close> only and machine-up from
  \<open>DOWN\<close> to \<open>UP\<close> only. The modes do not stay on the cycle \<open>UP \<rightarrow> DRAINING \<rightarrow> DOWN \<rightarrow> UP\<close>: a
  schedule update answered \<open>OK\<close> puts every machine that the new schedule names in \<open>DRAINING\<close>
  mode, returns every other machine known when its continuation runs to \<open>UP\<close>, and leaves the
  mode of the machines unknown then.
\<close>

theorem C3_mode_transitions:
  "(json_parse_array ext (body request) = Inr j \<and>
    protobuf_parse_machine_ids ext j = Inr ids \<and>
    (\<exists>i\<in>set ids. map_of (machines m) i = None \<or> mode_of m i \<noteq> DRAINING)
    \<longrightarrow> (\<exists>msg. maintenance ext Machine_down request result m later = Inr (BadRequest msg, m))) \<and>
   (json_parse_array ext (body request) = Inr j \<and>
    protobuf_parse_machine_ids ext j = Inr ids \<and>
    (\<exists>i\<in>set ids. map_of (machines m) i = None \<or> mode_of m i \<noteq> DOWN)
    \<longrightarrow> (\<exists>msg. maintenance ext Machine_up request result m later = Inr (BadRequest msg, m))) \<and>
   (maintenance ext Machine_down request result m m = Inr (resp, m')
    \<longrightarrow> mode_of m' i = mode_of m i \<or> (mode_of m i = DRAINING \<and> mode_of m' i = DOWN)) \<and>
   (maintenance ext Machine_up request result m m = Inr (resp, m')
    \<longrightarrow> mode_of m' i = mode_of m i \<or> (mode_of m i = DOWN \<and> mode_of m' i = UP)) \<and>
   (maintenance ext Machine_down request result m later = Inr (OK, m') \<and>
    json_parse_array ext (body request) = Inr j \<and>
    protobuf_parse_machine_ids ext j = Inr ids
    \<longrightarrow> (i \<in> set ids \<longrightarrow> mode_of m i = DRAINING \<and> mode_of m' i = DOWN) \<and>
        (i \<notin> set ids \<longrightarrow> mode_of m' i = mode_of later i)) \<and>
   (maintenance ext Machine_up request result m later = Inr (OK, m') \<and>
    json_parse_array ext (body request) = Inr j \<and>
    protobuf_parse_machine_ids ext j = Inr ids
    \<longrightarrow> (i \<in> set ids \<longrightarrow> mode_of m i = DOWN \<and> mode_of m' i = UP) \<and>
        (i \<notin> set ids \<longrightarrow> mode_of m' i = mode_of later i)) \<and>
   (maintenance ext Schedule_update request result m later = Inr (OK, m') \<and>
    http_method request = ''POST'' \<and>
    json_parse_object ext (body request) = Inr js \<and>
    protobuf_parse_schedule ext js = Inr schedule
    \<longrightarrow> (i \<in> named schedule \<longrightarrow> mode_of m' i = DRAINING) \<and>
        (i \<notin> named schedule \<and> map_of (machines later) i \<noteq> None \<longrightarrow> mode_of m' i = UP) \<and>
        (i \<notin> named schedule \<and> map_of (machines later) i = None \<longrightarrow>
           mode_of m' i = mode_of later i))"
proof -
  have d: "json_parse_array ext (body request) = Inr j \<and>
    protobuf_parse_machine_ids ext j = Inr ids \<and>
    (\<exists>i\<in>set ids. map_of (machines m) i = None \<or> mode_of m i \<noteq> DRAINING)
    \<longrightarrow> (\<exists>msg. maintenance ext Machine_down request result m later = Inr (BadRequest msg, m))"
    using machineDown_deferred_rejects by (simp add: maintenance_def)
  have u: "json_parse_array ext (body request) = Inr j \<and>
    protobuf_parse_machine_ids ext j = Inr ids \<and>
    (\<exists>i\<in>set ids. map_of (machines m) i = None \<or> mode_of m i \<noteq> DOWN)
    \<longrightarrow> (\<exists>msg. maintenance ext Machine_up request result m later = Inr (BadRequest msg, m))"
    using machineUp_deferred_rejects by (simp add: maintenance_def)
  have td: "maintenance ext Machine_down request result m m = Inr (resp, m')
    \<longrightarrow> mode_of m' i = mode_of m i \<or> (mode_of m i = DRAINING \<and> mode_of m' i = DOWN)"
    using machineDown_transition by (simp add: maintenance_def machineDown_deferred_same)
  have tu: "maintenance ext Machine_up request result m m = Inr (resp, m')
    \<longrightarrow> mode_of m' i = mode_of m i \<or> (mode_of m i = DOWN \<and> mode_of m' i = UP)"
    using machineUp_transition by (simp add: maintenance_def machineUp_deferred_same)
  have gd: "maintenance ext Machine_down request result m later = Inr (OK, m') \<and>
    json_parse_array ext (body request) = Inr j \<and>
    protobuf_parse_machine_ids ext j = Inr ids
    \<longrightarrow> (i \<in> set ids \<longrightarrow> mode_of m i = DRAINING \<and> mode_of m' i = DOWN) \<and>
        (i \<notin> set ids \<longrightarrow> mode_of m' i = mode_of later i)"
  proof (intro impI, elim conjE)
    assume "maintenance ext Machine_down request result m later = Inr (OK, m')"
    then have r: "machineDown_deferred ext request result m later = Inr (OK, m')"
      by (simp add: maintenance_def)
    assume "json_parse_array ext (body request) = Inr j"
      and "protobuf_parse_machine_ids ext j = Inr ids"
    with r show "(i \<in> set ids \<longrightarrow> mode_of m i = DRAINING \<and> mode_of m' i = DOWN) \<and>
        (i \<notin> set ids \<longrightarrow> mode_of m' i = mode_of later i)"
      by (rule machineDown_deferred_modes)
  qed
  have gu: "maintenance ext Machine_up request result m later = Inr (OK, m') \<and>
    json_parse_array ext (body request) = Inr j \<and>
    protobuf_parse_machine_ids ext j = Inr ids
    \<longrightarrow> (i \<in> set ids \<longrightarrow> mode_of m i = DOWN \<and> mode_of m' i = UP) \<and>
        (i \<notin> set ids \<longrightarrow> mode_of m' i = mode_of later i)"
  proof (intro impI, elim conjE)
    assume "maintenance ext Machine_up request result m later = Inr (OK, m')"
    then have r: "machineUp_deferred ext request result m later = Inr (OK, m')"
      by (simp add: maintenance_def)
    assume "json_parse_array ext (body request) = Inr j"
      and "protobuf_parse_machine_ids ext j = Inr ids"
    with r show "(i \<in> set ids \<longrightarrow> mode_of m i = DOWN \<and> mode_of m' i = UP) \<and>
        (i \<notin> set ids \<longrightarrow> mode_of m' i = mode_of later i)"
      by (rule machineUp_deferred_modes)
  qed
  have ts: "maintenance ext Schedule_update request result m later = Inr (OK, m') \<and>
    http_method request = ''POST'' \<and>
    json_parse_object ext (body request) = Inr js \<and>
    protobuf_parse_schedule ext js = Inr schedule
    \<longrightarrow> (i \<in> named schedule \<longrightarrow> mode_of m' i = DRAINING) \<and>
        (i \<notin> named schedule \<and> map_of (machines later) i \<noteq> None \<longrightarrow> mode_of m' i = UP) \<and>
        (i \<notin> named schedule \<and> map_of (machines later) i = None \<longrightarrow>
           mode_of m' i = mode_of later i)"
  proof
    assume h: "maintenance ext Schedule_update request result m later = Inr (OK, m') \<and>
      http_method request = ''POST'' \<and>
      json_parse_object ext (body request) = Inr js \<and>
      protobuf_parse_schedule ext js = Inr schedule"
    then have r: "maintenanceSchedule_deferred ext request result m later = Inr (OK, m')"
      by (simp add: maintenance_def)
    from h have p: "http_method request = ''POST''"
      "json_parse_object ext (body request) = Inr js"
      "protobuf_parse_schedule ext js = Inr schedule" by simp_all
    from maintenanceSchedule_deferred_OK [OF r p]
    show "(i \<in> named schedule \<longrightarrow> mode_of m' i = DRAINING) \<and>
        (i \<notin> named schedule \<and> map_of (machines later) i \<noteq> None \<longrightarrow> mode_of m' i = UP) \<and>
        (i \<notin> named schedule \<and> map_of (machines later) i = None \<longrightarrow>
           mode_of m' i = mode_of later i)"
      by (rule schedule_update_modes)
  qed
  from d u td tu gd gu ts show ?thesis by (intro conjI)
qed

lemma run_schedule_update_step:
  "maintenance ext0 Schedule_update (post ''bc'') True master_draining master_draining =
   Inr (OK, master_rescheduled)"
  using run_schedule_update by (simp add: maintenance_def maintenanceSchedule_deferred_same)

text \<open>
  The claim as stated fails: the schedule update of the spec's own example (machines \<open>a\<close> and
  \<open>b\<close> draining, new schedule \<open>b\<close> and \<open>c\<close>) moves \<open>a\<close> from \<open>DRAINING\<close> to \<open>UP\<close>, which is no
  step of the cycle.
\<close>

theorem C3_mode_transitions_counterexample:
  "maintenance ext0 Schedule_update (post ''bc'') True master_draining master_draining =
     Inr (OK, master_rescheduled) \<and>
   mode_of master_draining ''a'' = DRAINING \<and>
   mode_of master_rescheduled ''a'' = UP \<and>
   \<not> cycle_step (mode_of master_draining ''a'') (mode_of master_rescheduled ''a'')"
  using run_schedule_update_step
  by (simp add: mode_of_def machine_at_def master_draining_def
        master_rescheduled_def machine_in_def cycle_step_def)

text \<open>
  Nor do the checks of machine-down bind its continuation: here the request to bring \<open>a\<close> down
  is checked while \<open>a\<close> is draining, a schedule update that no longer names \<open>a\<close> runs before
  the registrar has answered, and the continuation moves \<open>a\<close> from \<open>UP\<close> to \<open>DOWN\<close>.
\<close>

lemma machineDown_after_schedule_update:
  "maintenanceSchedule ext0 (post ''b'') True master_agents = Inr (OK, master_a_dropped) \<and>
   mode_of master_agents ''a'' = DRAINING \<and>
   mode_of master_a_dropped ''a'' = UP \<and>
   maintenance ext0 Machine_down (post ''a'') True master_agents master_a_dropped =
     Inr (OK, master_a_dropped_down) \<and>
   mode_of master_a_dropped_down ''a'' = DOWN"
  by (simp add: maintenance_def machineDown_deferred_def machineDown_continue_def
        maintenanceSchedule_def maintenanceSchedule_continue_def ext0_def post_def
        master_agents_def master_a_dropped_def master_a_dropped_down_def master0_def
        machine_in_def unavail_def
        machine_at_def modify_machine_def set_mode_def set_unavailability_def Let_def
        names_no_DOWN_def updated_of_def update_known_def save_windows_def save_machine_def
        updateUnavailability_def Machine_default_def deactivate_def removeSlave_def send_def
        registered_get_def mode_of_def)

theorem C3_mode_transitions_witness:
  "(\<exists>msg. maintenance ext0 Machine_down (post ''a'') True master_down master_agents =
            Inr (BadRequest msg, master_down)) \<and>
   (\<exists>msg. maintenance ext0 Machine_up (post ''a'') True master_draining master_agents =
            Inr (BadRequest msg, master_draining)) \<and>
   maintenance ext0 Machine_down (post ''a'') True master_agents master_agents =
     Inr (OK, master_agents_down) \<and>
   mode_of master_agents ''a'' = DRAINING \<and> mode_of master_agents_down ''a'' = DOWN \<and>
   maintenance ext0 Schedule_update (post ''bc'') True master_draining master_draining =
     Inr (OK, master_rescheduled) \<and>
   mode_of master_rescheduled ''a'' = UP \<and> mode_of master_rescheduled ''c'' = DRAINING \<and>
   maintenance ext0 Machine_down (post ''a'') True master_agents master_a_dropped =
     Inr (OK, master_a_dropped_down) \<and>
   mode_of master_a_dropped ''a'' = UP \<and> mode_of master_a_dropped_down ''a'' = DOWN \<and>
   mode_of master_a_dropped_down ''b'' = mode_of master_a_dropped ''b''"
proof -
  let ?s = "\<lparr>windows = [\<lparr>machine_ids = [''b'', ''c''], w_unavailability = unavail 7\<rparr>]\<rparr>"
  have p1: "json_parse_array ext0 (body (post ''a'')) = Inr ''a''"
    by (simp add: ext0_def post_def)
  have p2: "protobuf_parse_machine_ids ext0 ''a'' = Inr [''a'']"
    by (simp add: ext0_def)
  have nd: "\<exists>i\<in>set [''a'']. map_of (machines master_down) i = None \<or> mode_of master_down i \<noteq> DRAINING"
    by (simp add: master_down_def mode_of_def machine_at_def machine_in_def)
  have nu: "\<exists>i\<in>set [''a'']. map_of (machines master_draining) i = None \<or> mode_of master_draining i \<noteq> DOWN"
    by (simp add: master_draining_def mode_of_def machine_at_def machine_in_def)
  have run: "maintenance ext0 Machine_down (post ''a'') True master_agents master_agents =
             Inr (OK, master_agents_down)"
    by (simp add: maintenance_def machineDown_deferred_def machineDown_continue_def ext0_def
          post_def master_agents_def master_agents_down_def master0_def machine_in_def unavail_def
          machine_at_def modify_machine_def set_mode_def deactivate_def removeSlave_def send_def
          registered_get_def)
  have modes: "mode_of master_agents ''a'' = DRAINING"
    by (simp add: mode_of_def machine_at_def master_agents_def machine_in_def)
  have q0: "http_method (post ''bc'') = ''POST''" by (simp add: post_def)
  have q1: "json_parse_object ext0 (body (post ''bc'')) = Inr ''bc''"
    by (simp add: ext0_def post_def)
  have q2: "protobuf_parse_schedule ext0 ''bc'' = Inr ?s"
    by (simp add: ext0_def unavail_def)
  have ka: "''a'' \<notin> named ?s \<and> map_of (machines master_draining) ''a'' \<noteq> None"
    by (simp add: named_def master_draining_def)
  have kc: "''c'' \<in> named ?s" by (simp add: named_def)
  from C3_mode_transitions [of ext0 "post ''a''" "''a''" "[''a'']" master_down True master_agents]
    p1 p2 nd
  have a: "\<exists>msg. maintenance ext0 Machine_down (post ''a'') True master_down master_agents =
            Inr (BadRequest msg, master_down)"
    by blast
  from C3_mode_transitions [of ext0 "post ''a''" "''a''" "[''a'']" master_draining True master_agents]
    p1 p2 nu
  have b: "\<exists>msg. maintenance ext0 Machine_up (post ''a'') True master_draining master_agents =
            Inr (BadRequest msg, master_draining)"
    by blast
  have dn: "mode_of master_agents_down ''a'' \<noteq> mode_of master_agents ''a''"
    by (simp add: mode_of_def machine_at_def master_agents_def master_agents_down_def machine_in_def)
  from C3_mode_transitions [of ext0 "post ''a''" "''a''" "[''a'']" master_agents True master_agents
      OK master_agents_down "''a''"] run dn
  have c: "mode_of master_agents_down ''a'' = DOWN" by blast
  from C3_mode_transitions [of ext0 "post ''bc''" _ _ master_draining True master_draining
      _ master_rescheduled "''a''" "''bc''" ?s] run_schedule_update_step q0 q1 q2 ka
  have e: "mode_of master_rescheduled ''a'' = UP" by blast
  from C3_mode_transitions [of ext0 "post ''bc''" _ _ master_draining True master_draining
      _ master_rescheduled "''c''" "''bc''" ?s] run_schedule_update_step q0 q1 q2 kc
  have f: "mode_of master_rescheduled ''c'' = DRAINING" by blast
  from machineDown_after_schedule_update have
    late: "maintenance ext0 Machine_down (post ''a'') True master_agents master_a_dropped =
             Inr (OK, master_a_dropped_down)"
    and up: "mode_of master_a_dropped ''a'' = UP" by simp_all
  have ia: "''a'' \<in> set [''a'']" and ib: "''b'' \<notin> set [''a'']" by simp_all
  from C3_mode_transitions [of ext0 "post ''a''" "''a''" "[''a'']" master_agents True
      master_a_dropped _ master_a_dropped_down "''a''"] late p1 p2 ia
  have g: "mode_of master_a_dropped_down ''a'' = DOWN" by blast
  from C3_mode_transitions [of ext0 "post ''a''" "''a''" "[''a'']" master_agents True
      master_a_dropped _ master_a_dropped_down "''b''"] late p1 p2 ib
  have h: "mode_of master_a_dropped_down ''b'' = mode_of master_a_dropped ''b''" by blast
  from a b run modes c run_schedule_update_step e f late up g h show ?thesis by (intro conjI)
qed

section \<open>The rescission loop and the application of the operation\<close>

lemma find_filter_key:
  "find (\<lambda>x. f x = k) (filter (\<lambda>x. f x \<noteq> k') xs) =
   (if k = k' then None else find (\<lambda>x. f x = k) xs)"
  by (induction xs) auto

lemma rescind_offers_store:
  "offers (rescind offer m) = filter (\<lambda>x. o_id x \<noteq> o_id offer) (offers m)"
  by (simp add: rescind_def removeOffer_def recoverResources_def send_def Let_def)

lemma outstanding_rescind:
  "outstanding (rescind offer m) oid = (if oid = o_id offer then None else outstanding m oid)"
  by (simp add: outstanding_def rescind_offers_store find_filter_key)

lemma outstanding_fold_rescind:
  "outstanding (fold rescind rs m) oid =
   (if oid \<in> o_id ` set rs then None else outstanding m oid)"
  by (induction rs arbitrary: m) (auto simp: outstanding_rescind)

lemma rescind_offers_result:
  "rescind_offers ops operation os required recovered m = (rq, rc, m', rs) \<Longrightarrow>
   subseq rs os \<and> justified ops operation required recovered rs \<and> m' = fold rescind rs m \<and>
   rq = fold (\<lambda>x r. r_minus ops r (resources x)) rs required \<and>
   rc = fold (\<lambda>x r. r_plus ops r (resources x)) rs recovered"
proof (induction os arbitrary: required recovered m rq rc m' rs)
  case Nil
  then show ?case by simp
next
  case (Cons offer rest)
  show ?case
  proof (cases "r_equal ops required (r_minus ops required (resources offer))")
    case True
    with Cons.prems have "rescind_offers ops operation rest required recovered m = (rq, rc, m', rs)"
      by simp
    from Cons.IH [OF this] show ?thesis by (auto intro: list_emb_Cons)
  next
    case False
    let ?rc = "r_plus ops recovered (resources offer)"
    let ?rq = "r_minus ops required (resources offer)"
    show ?thesis
    proof (cases "isl (r_apply ops ?rc operation)")
      case True
      with False Cons.prems obtain rs' where
        r: "rescind_offers ops operation rest ?rq ?rc (rescind offer m) = (rq, rc, m', rs')"
        and rs: "rs = offer # rs'"
        by (auto simp: Let_def split: prod.splits)
      from Cons.IH [OF r] False True rs show ?thesis by simp
    next
      case suff: False
      with False Cons.prems have "rq = ?rq" "rc = ?rc" "m' = rescind offer m" "rs = [offer]"
        by (simp_all add: Let_def)
      with False show ?thesis by simp
    qed
  qed
qed

text \<open>
  Claim C1. Whatever the loop state, the offers the rescission loop rescinds are a
  subsequence of the agent's offers; each of them reduced the resources still required when
  the loop came to it (an offer that would not is skipped); an offer is rescinded after
  another one only if the resources recovered up to then did not let the operation apply, so
  that nothing is rescinded after the first rescission that suffices; the master is changed
  by those rescissions and nothing else, and every other offer is outstanding as before.
\<close>

theorem C1_rescission_stops_when_sufficient:
  assumes "rescind_offers ops operation os required recovered m = (required', recovered', m', rs)"
  shows "subseq rs os \<and> justified ops operation required recovered rs \<and>
         m' = fold rescind rs m \<and>
         (\<forall>oid. oid \<notin> o_id ` set rs \<longrightarrow> outstanding m' oid = outstanding m oid)"
proof -
  from rescind_offers_result [OF assms]
  have a: "subseq rs os" and b: "justified ops operation required recovered rs"
    and c: "m' = fold rescind rs m" by simp_all
  have d: "\<forall>oid. oid \<notin> o_id ` set rs \<longrightarrow> outstanding m' oid = outstanding m oid"
    by (simp add: c outstanding_fold_rescind)
  from a b c d show ?thesis by (intro conjI)
qed

text \<open>
  Claim C7. When the agent is registered and the loop has left the master \<open>m1\<close>: if applying
  the operation fails, the answer is \<open>Conflict\<close> with the failure and the master is \<open>m1\<close>, the
  rescissions applied and none undone, so that no rescinded offer is outstanding; if it
  succeeds, the answer is \<open>OK\<close>.
\<close>

theorem C7_conflict_keeps_rescissions:
  assumes "registered_get m slaveId = Some slave"
    and "rescind_offers ops operation (s_offers slave) required [] m = (required', recovered', m1, rs)"
  shows "(master_apply act slaveId operation m1 = Inl failure \<longrightarrow>
            Http_operation ops act slaveId required operation m = Inr (Conflict failure, m1) \<and>
            m1 = fold rescind rs m \<and>
            (\<forall>offer\<in>set rs. outstanding m1 (o_id offer) = None)) \<and>
         (master_apply act slaveId operation m1 = Inr m2 \<longrightarrow>
            Http_operation ops act slaveId required operation m = Inr (OK, m2))"
proof -
  from rescind_offers_result [OF assms(2)] have m1: "m1 = fold rescind rs m" by simp
  have gone: "\<forall>offer\<in>set rs. outstanding m1 (o_id offer) = None"
    by (simp add: m1 outstanding_fold_rescind)
  have f: "master_apply act slaveId operation m1 = Inl failure \<longrightarrow>
            Http_operation ops act slaveId required operation m = Inr (Conflict failure, m1)"
    using assms by (simp add: Http_operation_def)
  have s: "master_apply act slaveId operation m1 = Inr m2 \<longrightarrow>
            Http_operation ops act slaveId required operation m = Inr (OK, m2)"
    using assms by (simp add: Http_operation_def)
  from f s m1 gone show ?thesis by blast
qed

lemma run_rescind_offers:
  "rescind_offers ops0 (RESERVE [res ''cpu'', res ''mem''])
     [offer_of ''A'' [res ''cpu''], offer_of ''B'' [res ''mem''], offer_of ''C'' [res ''gpu'']]
     [res ''cpu'', res ''mem'', res ''gpu''] [] master_offers =
   ([res ''gpu''], [res ''cpu'', res ''mem''], master_rescinded,
    [offer_of ''A'' [res ''cpu''], offer_of ''B'' [res ''mem'']])"
  by (simp add: ops0_def res_def offer_of_def master_offers_def master_rescinded_def master0_def
        rescind_def removeOffer_def recoverResources_def send_def agent_with_def
        framework_with_def Let_def)

theorem C1_rescission_stops_when_sufficient_witness:
  "rescind_offers ops0 (RESERVE [res ''cpu'', res ''mem''])
     [offer_of ''A'' [res ''cpu''], offer_of ''B'' [res ''mem''], offer_of ''C'' [res ''gpu'']]
     [res ''cpu'', res ''mem'', res ''gpu''] [] master_offers =
   ([res ''gpu''], [res ''cpu'', res ''mem''], master_rescinded,
    [offer_of ''A'' [res ''cpu''], offer_of ''B'' [res ''mem'']]) \<and>
   \<not> r_equal ops0 [res ''gpu''] (r_minus ops0 [res ''gpu''] (resources (offer_of ''C'' [res ''gpu'']))) \<and>
   outstanding master_rescinded ''C'' = outstanding master_offers ''C'' \<and>
   outstanding master_offers ''C'' = Some (offer_of ''C'' [res ''gpu''])"
proof -
  have c: "''C'' \<notin> o_id ` set [offer_of ''A'' [res ''cpu''], offer_of ''B'' [res ''mem'']]"
    by (simp add: offer_of_def)
  from C1_rescission_stops_when_sufficient [OF run_rescind_offers] c
  have "outstanding master_rescinded ''C'' = outstanding master_offers ''C''" by blast
  moreover have "outstanding master_offers ''C'' = Some (offer_of ''C'' [res ''gpu''])"
    by (simp add: outstanding_def master_offers_def offer_of_def)
  moreover have "\<not> r_equal ops0 [res ''gpu'']
                   (r_minus ops0 [res ''gpu''] (resources (offer_of ''C'' [res ''gpu''])))"
    by (simp add: ops0_def offer_of_def)
  ultimately show ?thesis using run_rescind_offers by simp
qed

lemma agent_registered:
  "registered_get master_offers ''s1'' =
   Some (agent_with [offer_of ''A'' [res ''cpu''], offer_of ''B'' [res ''mem''],
                     offer_of ''C'' [res ''gpu'']])"
  by (simp add: registered_get_def master_offers_def agent_with_def)

theorem C7_conflict_keeps_rescissions_witness:
  "Http_operation ops0 act_conflict ''s1'' [res ''cpu'', res ''mem'', res ''gpu'']
     (RESERVE [res ''cpu'', res ''mem'']) master_offers =
     Inr (Conflict ''no longer available'', master_rescinded) \<and>
   outstanding master_rescinded ''A'' = None \<and>
   Http_operation ops0 act0 ''s1'' [res ''cpu'', res ''mem'', res ''gpu'']
     (RESERVE [res ''cpu'', res ''mem'']) master_offers = Inr (OK, master_rescinded)"
proof -
  have r: "rescind_offers ops0 (RESERVE [res ''cpu'', res ''mem''])
     (s_offers (agent_with [offer_of ''A'' [res ''cpu''], offer_of ''B'' [res ''mem''],
                            offer_of ''C'' [res ''gpu'']]))
     [res ''cpu'', res ''mem'', res ''gpu''] [] master_offers =
   ([res ''gpu''], [res ''cpu'', res ''mem''], master_rescinded,
    [offer_of ''A'' [res ''cpu''], offer_of ''B'' [res ''mem'']])"
    using run_rescind_offers by (simp add: agent_with_def)
  have f: "master_apply act_conflict ''s1'' (RESERVE [res ''cpu'', res ''mem'']) master_rescinded =
           Inl ''no longer available''"
    by (simp add: act_conflict_def)
  have s: "master_apply act0 ''s1'' (RESERVE [res ''cpu'', res ''mem'']) master_rescinded =
           Inr master_rescinded"
    by (simp add: act0_def)
  have a: "offer_of ''A'' [res ''cpu''] \<in> set [offer_of ''A'' [res ''cpu''], offer_of ''B'' [res ''mem'']]"
    by simp
  from C7_conflict_keeps_rescissions [OF agent_registered r, of act_conflict "''no longer available''"] f a
  have 1: "Http_operation ops0 act_conflict ''s1'' [res ''cpu'', res ''mem'', res ''gpu'']
     (RESERVE [res ''cpu'', res ''mem'']) master_offers =
     Inr (Conflict ''no longer available'', master_rescinded)"
    and 2: "outstanding master_rescinded (o_id (offer_of ''A'' [res ''cpu''])) = None"
    by blast+
  from C7_conflict_keeps_rescissions [OF agent_registered r, of act0 _ master_rescinded] s
  have 3: "Http_operation ops0 act0 ''s1'' [res ''cpu'', res ''mem'', res ''gpu'']
     (RESERVE [res ''cpu'', res ''mem'']) master_offers = Inr (OK, master_rescinded)"
    by blast
  from 1 2 3 show ?thesis by (simp add: offer_of_def)
qed

section \<open>The operator endpoints, authentication and the scheduler calls\<close>














lemma Http_teardown_not_Unauthorized: "\<not> is_Unauthorized (Http_teardown act fid m)"
  by (simp add: Http_teardown_def is_Unauthorized_def split: option.splits)















lemma scheduler_validated:
  assumes "validated ext request m call"
  shows "scheduler ext act request pipe m =
         (if call_type call = SUBSCRIBE then subscribe_call ext act request pipe call m
          else dispatch act call m)"
  using assms
  by (auto simp: validated_def scheduler_def Let_def split: option.splits sum.splits)

text \<open>
  Claim C6. For a validated call that is not \<open>SUBSCRIBE\<close>: when its framework is not registered
  the answer is \<open>BadRequest\<close> (400) and the master is unchanged; when the framework is registered
  and not connected the answer is \<open>Forbidden\<close> (403) and the master is unchanged.
\<close>

theorem C6_unknown_or_disconnected_framework:
  assumes "validated ext request m call" and "call_type call \<noteq> SUBSCRIBE"
  shows "(getFramework m (call_framework_id call) = None \<longrightarrow>
            scheduler ext act request pipe m = Inr (BadRequest ''Framework cannot be found'', m)) \<and>
         (\<forall>framework. getFramework m (call_framework_id call) = Some framework \<and>
                      \<not> connected framework \<longrightarrow>
            scheduler ext act request pipe m = Inr (Forbidden ''Framework is not subscribed'', m)) \<and>
         status (BadRequest ''Framework cannot be found'') = 400 \<and>
         status (Forbidden ''Framework is not subscribed'') = 403"
  using assms by (auto simp: scheduler_validated dispatch_def)

text \<open>
  Claim C8. For a validated \<open>SUBSCRIBE\<close> call: when the request accepts JSON the answer is the
  streaming (pipe) \<open>OK\<close> in JSON and the subscription is handed the writer of the pipe with that
  encoding; otherwise, when it accepts protobuf, the same in protobuf; when it accepts neither,
  the answer is \<open>NotAcceptable\<close> (406) and the master is unchanged, \<open>master->subscribe\<close> not being
  called. The response is the same whatever \<open>master->subscribe\<close> does: it is fixed without
  waiting for anything the subscription produces.
\<close>

theorem C8_subscribe_negotiates_encoding:
  assumes "validated ext request m call" and "call_type call = SUBSCRIBE"
  shows "(acceptsMediaType ext request APPLICATION_JSON \<longrightarrow>
            scheduler ext act request pipe m =
              Inr (OK_PIPE JSON_type pipe,
                   master_subscribe act \<lparr>h_writer = pipe, h_contentType = JSON_type\<rparr> call m)) \<and>
         (\<not> acceptsMediaType ext request APPLICATION_JSON \<and>
          acceptsMediaType ext request APPLICATION_PROTOBUF \<longrightarrow>
            scheduler ext act request pipe m =
              Inr (OK_PIPE PROTOBUF_type pipe,
                   master_subscribe act \<lparr>h_writer = pipe, h_contentType = PROTOBUF_type\<rparr> call m)) \<and>
         (\<not> acceptsMediaType ext request APPLICATION_JSON \<and>
          \<not> acceptsMediaType ext request APPLICATION_PROTOBUF \<longrightarrow>
            (\<exists>msg. scheduler ext act request pipe m = Inr (NotAcceptable msg, m) \<and>
                   status (NotAcceptable msg) = 406)) \<and>
         status (OK_PIPE JSON_type pipe) = 200 \<and> status (OK_PIPE PROTOBUF_type pipe) = 200 \<and>
         (\<forall>act'. response_of (scheduler ext act' request pipe m) =
                 response_of (scheduler ext act request pipe m))"
  using assms by (auto simp: scheduler_validated subscribe_call_def response_of_def)

lemma kill_validated:
  "validated ext0 (call_request ''application/json'' ''Kf1'') master_disconnected
     \<lparr>call_type = KILL, call_framework_id = ''f1'', call_payload = []\<rparr>"
  "validated ext0 (call_request ''application/json'' ''Kf1'') master0
     \<lparr>call_type = KILL, call_framework_id = ''f1'', call_payload = []\<rparr>"
  by (simp_all add: validated_def ext0_def call_request_def master_disconnected_def master0_def
        parse_call_def APPLICATION_JSON_def APPLICATION_PROTOBUF_def)

theorem C6_unknown_or_disconnected_framework_witness:
  "scheduler ext0 act0 (call_request ''application/json'' ''Kf1'') 0 master0 =
     Inr (BadRequest ''Framework cannot be found'', master0) \<and>
   scheduler ext0 act0 (call_request ''application/json'' ''Kf1'') 0 master_disconnected =
     Inr (Forbidden ''Framework is not subscribed'', master_disconnected)"
proof -
  let ?call = "\<lparr>call_type = KILL, call_framework_id = ''f1'', call_payload = []\<rparr>"
  have t: "call_type ?call \<noteq> SUBSCRIBE" by simp
  have u: "getFramework master0 (call_framework_id ?call) = None"
    by (simp add: getFramework_def master0_def)
  have d: "getFramework master_disconnected (call_framework_id ?call) = Some (framework_with False []) \<and>
           \<not> connected (framework_with False [])"
    by (simp add: getFramework_def master_disconnected_def framework_with_def)
  from C6_unknown_or_disconnected_framework [OF kill_validated(2) t, of act0 0] u
  have 1: "scheduler ext0 act0 (call_request ''application/json'' ''Kf1'') 0 master0 =
     Inr (BadRequest ''Framework cannot be found'', master0)" by blast
  from C6_unknown_or_disconnected_framework [OF kill_validated(1) t, of act0 0] d
  have 2: "scheduler ext0 act0 (call_request ''application/json'' ''Kf1'') 0 master_disconnected =
     Inr (Forbidden ''Framework is not subscribed'', master_disconnected)" by blast
  from 1 2 show ?thesis by (intro conjI)
qed

lemma subscribe_validated:
  "validated ext0 (call_request accept ''Sf2'') master0
     \<lparr>call_type = SUBSCRIBE, call_framework_id = ''f2'', call_payload = []\<rparr>"
  by (simp add: validated_def ext0_def call_request_def master0_def
        parse_call_def APPLICATION_JSON_def APPLICATION_PROTOBUF_def)

theorem C8_subscribe_negotiates_encoding_witness:
  "scheduler ext0 act0 (call_request ''application/json'' ''Sf2'') 0 master0 =
     Inr (OK_PIPE JSON_type 0,
          master0\<lparr>frameworks := [\<lparr>f_id = ''f2'', connected = True, f_principal = None,
                                   f_offers = []\<rparr>]\<rparr>) \<and>
   scheduler ext0 act0 (call_request ''application/x-protobuf'' ''Sf2'') 0 master0 =
     Inr (OK_PIPE PROTOBUF_type 0,
          master0\<lparr>frameworks := [\<lparr>f_id = ''f2'', connected = True, f_principal = None,
                                   f_offers = []\<rparr>]\<rparr>) \<and>
   (\<exists>msg. scheduler ext0 act0 (call_request ''text/html'' ''Sf2'') 0 master0 =
           Inr (NotAcceptable msg, master0))"
proof -
  let ?call = "\<lparr>call_type = SUBSCRIBE, call_framework_id = ''f2'', call_payload = []\<rparr>"
  have t: "call_type ?call = SUBSCRIBE" by simp
  have j: "acceptsMediaType ext0 (call_request ''application/json'' ''Sf2'') APPLICATION_JSON"
    by (simp add: ext0_def call_request_def APPLICATION_JSON_def)
  have p: "\<not> acceptsMediaType ext0 (call_request ''application/x-protobuf'' ''Sf2'') APPLICATION_JSON \<and>
           acceptsMediaType ext0 (call_request ''application/x-protobuf'' ''Sf2'') APPLICATION_PROTOBUF"
    by (simp add: ext0_def call_request_def APPLICATION_JSON_def APPLICATION_PROTOBUF_def)
  have n: "\<not> acceptsMediaType ext0 (call_request ''text/html'' ''Sf2'') APPLICATION_JSON \<and>
           \<not> acceptsMediaType ext0 (call_request ''text/html'' ''Sf2'') APPLICATION_PROTOBUF"
    by (simp add: ext0_def call_request_def APPLICATION_JSON_def APPLICATION_PROTOBUF_def)
  have s: "\<And>ct. master_subscribe act0 \<lparr>h_writer = 0, h_contentType = ct\<rparr> ?call master0 =
          master0\<lparr>frameworks := [\<lparr>f_id = ''f2'', connected = True, f_principal = None,
                                   f_offers = []\<rparr>]\<rparr>"
    by (simp add: act0_def master0_def)
  from C8_subscribe_negotiates_encoding [OF subscribe_validated t, of "''application/json''" act0 0] j
  have 1: "scheduler ext0 act0 (call_request ''application/json'' ''Sf2'') 0 master0 =
     Inr (OK_PIPE JSON_type 0, master_subscribe act0 \<lparr>h_writer = 0, h_contentType = JSON_type\<rparr> ?call master0)"
    by blast
  from C8_subscribe_negotiates_encoding [OF subscribe_validated t, of "''application/x-protobuf''" act0 0] p
  have 2: "scheduler ext0 act0 (call_request ''application/x-protobuf'' ''Sf2'') 0 master0 =
     Inr (OK_PIPE PROTOBUF_type 0, master_subscribe act0 \<lparr>h_writer = 0, h_contentType = PROTOBUF_type\<rparr> ?call master0)"
    by blast
  from C8_subscribe_negotiates_encoding [OF subscribe_validated t, of "''text/html''" act0 0] n
  have 3: "\<exists>msg. scheduler ext0 act0 (call_request ''text/html'' ''Sf2'') 0 master0 =
           Inr (NotAcceptable msg, master0)"
    by blast
  from 1 2 3 show ?thesis by (simp only: s)
qed

section \<open>Further properties of the handlers\<close>

text \<open>
  A schedule that a \<open>POST\<close> has stored (answer \<open>OK\<close>) is the schedule a following
  \<open>GET\<close> answers, whatever else the handler is given.
\<close>

theorem schedule_round_trip:
  assumes "maintenanceSchedule ext request result m = Inr (OK, m')"
    and "http_method request = ''POST''"
    and "json_parse_object ext (body request) = Inr js"
    and "protobuf_parse_schedule ext js = Inr schedule"
    and "http_method fetch = ''GET''"
  shows "maintenanceSchedule ext fetch result' m' =
         Inr (OK_JSON (json_of_schedule ext schedule) (map_of (query fetch) ''jsonp''), m')"
proof -
  from maintenanceSchedule_OK [OF assms(1-4)] have "schedules m' = [schedule]" by simp
  with assms(5) show ?thesis by (simp add: maintenanceSchedule_def)
qed

theorem schedule_round_trip_witness:
  "maintenanceSchedule ext0 (post ''bc'') True master_draining = Inr (OK, master_rescheduled) \<and>
   maintenanceSchedule ext0 fetch_schedule True master_rescheduled =
     Inr (OK_JSON ''bc'' None, master_rescheduled)"
proof -
  have p0: "http_method (post ''bc'') = ''POST''" by (simp add: post_def)
  have p1: "json_parse_object ext0 (body (post ''bc'')) = Inr ''bc''"
    by (simp add: ext0_def post_def)
  have p2: "protobuf_parse_schedule ext0 ''bc'' =
            Inr \<lparr>windows = [\<lparr>machine_ids = [''b'', ''c''], w_unavailability = unavail 7\<rparr>]\<rparr>"
    by (simp add: ext0_def unavail_def)
  have g: "http_method fetch_schedule = ''GET''" by (simp add: fetch_schedule_def)
  have j: "json_of_schedule ext0
             \<lparr>windows = [\<lparr>machine_ids = [''b'', ''c''], w_unavailability = unavail 7\<rparr>]\<rparr> = ''bc''"
    by (simp add: ext0_def)
  have q: "map_of (query fetch_schedule) ''jsonp'' = None" by (simp add: fetch_schedule_def)
  from schedule_round_trip [OF run_schedule_update p0 p1 p2 g, of True]
  show ?thesis using run_schedule_update by (simp add: j q)
qed

text \<open>
  A validated call of one of the eleven types of the switch, for a framework that
  is registered and connected, is answered \<open>Accepted\<close> (202), the action of its type applied
  to the master: \<open>removeFramework\<close> for \<open>TEARDOWN\<close>, \<open>kill\<close> for \<open>KILL\<close>.
\<close>

theorem connected_framework_accepted:
  assumes "validated ext request m call"
    and "getFramework m (call_framework_id call) = Some framework" and "connected framework"
    and "call_type call \<noteq> SUBSCRIBE" and "call_type call \<noteq> UNKNOWN"
  shows "(\<exists>m'. scheduler ext act request pipe m = Inr (Accepted, m')) \<and> status Accepted = 202 \<and>
         (call_type call = TEARDOWN \<longrightarrow>
            scheduler ext act request pipe m =
            Inr (Accepted, master_removeFramework act (f_id framework) m)) \<and>
         (call_type call = KILL \<longrightarrow>
            scheduler ext act request pipe m =
            Inr (Accepted, master_kill act (f_id framework) call m))"
  using assms by (cases "call_type call") (simp_all add: scheduler_validated dispatch_def)

theorem connected_framework_accepted_witness:
  "scheduler ext0 act0 (call_request ''application/json'' ''Kf1'') 0 master_offers =
     Inr (Accepted, master_offers)"
proof -
  let ?call = "\<lparr>call_type = KILL, call_framework_id = ''f1'', call_payload = []\<rparr>"
  have v: "validated ext0 (call_request ''application/json'' ''Kf1'') master_offers ?call"
    by (simp add: validated_def ext0_def call_request_def master_offers_def master0_def
        parse_call_def APPLICATION_JSON_def APPLICATION_PROTOBUF_def)
  have g: "getFramework master_offers (call_framework_id ?call) =
           Some (framework_with True [''A'', ''B'', ''C''])"
    by (simp add: getFramework_def master_offers_def framework_with_def)
  have c: "connected (framework_with True [''A'', ''B'', ''C''])" by (simp add: framework_with_def)
  have k: "master_kill act0 (f_id (framework_with True [''A'', ''B'', ''C''])) ?call master_offers =
           master_offers" by (simp add: act0_def)
  from connected_framework_accepted [OF v g c, of act0 0]
  have "scheduler ext0 act0 (call_request ''application/json'' ''Kf1'') 0 master_offers =
        Inr (Accepted, master_kill act0 (f_id (framework_with True [''A'', ''B'', ''C''])) ?call
                         master_offers)"
    by simp
  then show ?thesis by (simp only: k)
qed

end
